theory Spec2Isabelle
  imports Complex_Main "HOL-Library.Log_Nat" "HOL-Library.Monad_Syntax"
begin

chapter \<open>The audio mixer of assignment-client (AudioMixer.cpp)\<close>

section \<open>IEEE binary32 arithmetic, as far as the frame scheduler and the audibility gate use it\<close>

text \<open>
  The members \<open>_trailingSleepRatio\<close>, \<open>_minAudibilityThreshold\<close> and
  \<open>_performanceThrottlingRatio\<close> are C++ \<open>float\<close>s. The scheduler applies only
  \<open>+\<close>, \<open>-\<close>, \<open>*\<close>, \<open>/\<close> and comparisons to them, and the audibility gate of the
  mixer the same and a square root; IEEE 754 defines all of these exactly: the real result,
  rounded to the nearest binary32 value, ties to the even significand. A value is finite
  (\<open>Fin\<close>, carrying the real it denotes), an infinity or a NaN. The sign of zero is not
  modelled: no divisor of the scheduler or of the gate is negative.
\<close>

datatype f32 = Fin real | PInf | NInf | NaN

text \<open>The binary exponent of a positive real: \<open>2 ^ bexp x \<le> x < 2 ^ (bexp x + 1)\<close>.\<close>

definition bexp :: "real \<Rightarrow> int" where
  "bexp x = (if 1 \<le> x then bitlen \<lfloor>x\<rfloor> - 1 else - bitlen (\<lceil>1 / x\<rceil> - 1))"

definition round_half_even :: "real \<Rightarrow> int" where
  "round_half_even x =
     (let f = \<lfloor>x\<rfloor>; d = x - of_int f
      in if d < 1/2 then f else if 1/2 < d then f + 1 else if even f then f else f + 1)"

text \<open>
  The unit in the last place of a positive real in binary32: 24 bits of significand, the
  exponent of a subnormal held at \<open>-126\<close>.
\<close>

definition ulp32 :: "real \<Rightarrow> real" where
  "ulp32 x = 2 powi (max (bexp x) (- 126) - 23)"

definition round_pos :: "real \<Rightarrow> real" where
  "round_pos x = of_int (round_half_even (x / ulp32 x)) * ulp32 x"

definition f32_of_real :: "real \<Rightarrow> f32" where
  "f32_of_real x =
     (if x = 0 then Fin 0
      else if 0 < x then (let y = round_pos x in if 2 ^ 128 \<le> y then PInf else Fin y)
      else (let y = round_pos (- x) in if 2 ^ 128 \<le> y then NInf else Fin (- y)))"

fun fneg :: "f32 \<Rightarrow> f32" where
  "fneg (Fin a) = Fin (- a)"
| "fneg PInf = NInf"
| "fneg NInf = PInf"
| "fneg NaN = NaN"

fun fadd :: "f32 \<Rightarrow> f32 \<Rightarrow> f32" where
  "fadd (Fin a) (Fin b) = f32_of_real (a + b)"
| "fadd NaN _ = NaN"
| "fadd _ NaN = NaN"
| "fadd PInf NInf = NaN"
| "fadd NInf PInf = NaN"
| "fadd PInf _ = PInf"
| "fadd _ PInf = PInf"
| "fadd NInf _ = NInf"
| "fadd _ NInf = NInf"

definition fsub :: "f32 \<Rightarrow> f32 \<Rightarrow> f32" where
  "fsub a b = fadd a (fneg b)"

fun fsgn :: "f32 \<Rightarrow> real" where
  "fsgn (Fin a) = sgn a"
| "fsgn PInf = 1"
| "fsgn NInf = - 1"
| "fsgn NaN = 0"

definition inf_of_sign :: "real \<Rightarrow> f32" where
  "inf_of_sign s = (if s = 0 then NaN else if 0 < s then PInf else NInf)"

fun fmul :: "f32 \<Rightarrow> f32 \<Rightarrow> f32" where
  "fmul (Fin a) (Fin b) = f32_of_real (a * b)"
| "fmul NaN _ = NaN"
| "fmul _ NaN = NaN"
| "fmul a b = inf_of_sign (fsgn a * fsgn b)"

text \<open>Division by zero does not trap: a non-zero value over zero is an infinity.\<close>

fun fdiv :: "f32 \<Rightarrow> f32 \<Rightarrow> f32" where
  "fdiv (Fin a) (Fin b) = (if b = 0 then inf_of_sign (sgn a) else f32_of_real (a / b))"
| "fdiv NaN _ = NaN"
| "fdiv _ NaN = NaN"
| "fdiv (Fin a) _ = Fin 0"
| "fdiv a (Fin b) = inf_of_sign (fsgn a * (if b < 0 then - 1 else 1))"
| "fdiv _ _ = NaN"

fun fle :: "f32 \<Rightarrow> f32 \<Rightarrow> bool" where
  "fle (Fin a) (Fin b) = (a \<le> b)"
| "fle NaN _ = False"
| "fle _ NaN = False"
| "fle NInf _ = True"
| "fle _ PInf = True"
| "fle _ _ = False"

fun flt :: "f32 \<Rightarrow> f32 \<Rightarrow> bool" where
  "flt (Fin a) (Fin b) = (a < b)"
| "flt NaN _ = False"
| "flt _ NaN = False"
| "flt PInf _ = False"
| "flt _ NInf = False"
| "flt _ _ = True"

definition fne :: "f32 \<Rightarrow> f32 \<Rightarrow> bool" where
  "fne a b = (a = NaN \<or> b = NaN \<or> a \<noteq> b)"


definition float_of_int :: "int \<Rightarrow> f32" where
  "float_of_int i = f32_of_real (of_int i)"

text \<open>The square root (\<open>sqrtf\<close>): the real root, rounded; of a negative value, a NaN.\<close>

definition fsqrt :: "f32 \<Rightarrow> f32" where
  "fsqrt a =
     (case a of
        Fin x \<Rightarrow> if x < 0 then NaN else f32_of_real (sqrt x)
      | PInf \<Rightarrow> PInf
      | NInf \<Rightarrow> NaN
      | NaN \<Rightarrow> NaN)"

section \<open>The frame scheduler: the throttle of \<open>AudioMixer::run\<close>\<close>

definition LOUDNESS_TO_DISTANCE_RATIO :: f32 where
  "LOUDNESS_TO_DISTANCE_RATIO = f32_of_real (1 / 100000)"

text \<open>
  Modelled from the spec: \<open>BUFFER_SEND_INTERVAL_USECS\<close> is declared in AudioRingBuffer.h,
  which is not among the sources; the spec gives the frame interval as 10 000 microseconds.
\<close>

definition BUFFER_SEND_INTERVAL_USECS :: int where
  "BUFFER_SEND_INTERVAL_USECS = 10000"

definition TRAILING_AVERAGE_FRAMES :: int where
  "TRAILING_AVERAGE_FRAMES = 100"

definition STRUGGLE_TRIGGER_SLEEP_PERCENTAGE_THRESHOLD :: f32 where
  "STRUGGLE_TRIGGER_SLEEP_PERCENTAGE_THRESHOLD = f32_of_real (10 / 100)"

definition BACK_OFF_TRIGGER_SLEEP_PERCENTAGE_THRESHOLD :: f32 where
  "BACK_OFF_TRIGGER_SLEEP_PERCENTAGE_THRESHOLD = f32_of_real (20 / 100)"

definition RATIO_BACK_OFF :: f32 where
  "RATIO_BACK_OFF = f32_of_real (2 / 100)"

definition CURRENT_FRAME_RATIO :: f32 where
  "CURRENT_FRAME_RATIO = fdiv (Fin 1) (float_of_int TRAILING_AVERAGE_FRAMES)"

definition PREVIOUS_FRAMES_RATIO :: f32 where
  "PREVIOUS_FRAMES_RATIO = fsub (Fin 1) CURRENT_FRAME_RATIO"

text \<open>
  The state the throttle reads and writes: three members of the mixer and two locals of
  \<open>run\<close>. \<open>framesSinceCutoffEvent\<close> is a C \<open>int\<close>; it is reset by every adjustment,
  and its overflow (2^31 frames with no adjustment) is outside this model.
\<close>

record scheduler =
  trailingSleepRatio :: f32
  minAudibilityThreshold :: f32
  performanceThrottlingRatio :: f32
  usecToSleep :: int
  framesSinceCutoffEvent :: int

text \<open>The constructor's initialisers and the locals as \<open>run\<close> sets them before the loop.\<close>

definition scheduler_init :: scheduler where
  "scheduler_init =
     \<lparr> trailingSleepRatio = Fin 1,
       minAudibilityThreshold = fdiv LOUDNESS_TO_DISTANCE_RATIO (Fin 2),
       performanceThrottlingRatio = Fin 0,
       usecToSleep = BUFFER_SEND_INTERVAL_USECS,
       framesSinceCutoffEvent = TRAILING_AVERAGE_FRAMES \<rparr>"

text \<open>
  The top of the loop body: the clamp of \<open>usecToSleep\<close> and the trailing average of
  the share of the frame interval that was slept.
\<close>

definition update_trailing_sleep_ratio :: "scheduler \<Rightarrow> scheduler" where
  "update_trailing_sleep_ratio s =
    (let usec = (if usecToSleep s < 0 then 0 else usecToSleep s)
     in s\<lparr> usecToSleep := usec,
           trailingSleepRatio :=
             fadd (fmul PREVIOUS_FRAMES_RATIO (trailingSleepRatio s))
                  (fdiv (fmul (float_of_int usec) CURRENT_FRAME_RATIO)
                        (float_of_int BUFFER_SEND_INTERVAL_USECS)) \<rparr>)"

text \<open>
  The evaluation of the throttle (the block under
  \<open>framesSinceCutoffEvent >= TRAILING_AVERAGE_FRAMES\<close>); the result carries the local
  \<open>hasRatioChanged\<close>.
\<close>

definition adjust_cutoff :: "scheduler \<Rightarrow> scheduler \<times> bool" where
  "adjust_cutoff s =
    (let lastCutoffRatio = performanceThrottlingRatio s
     in if TRAILING_AVERAGE_FRAMES \<le> framesSinceCutoffEvent s then
          (let (s', hasRatioChanged) =
             (if fle (trailingSleepRatio s) STRUGGLE_TRIGGER_SLEEP_PERCENTAGE_THRESHOLD then
                (s\<lparr> performanceThrottlingRatio :=
                      fadd lastCutoffRatio (fmul (Fin (1/2)) (fsub (Fin 1) lastCutoffRatio)) \<rparr>,
                 True)
              else if fle BACK_OFF_TRIGGER_SLEEP_PERCENTAGE_THRESHOLD (trailingSleepRatio s)
                      \<and> fne lastCutoffRatio (Fin 0) then
                (let r = fsub lastCutoffRatio RATIO_BACK_OFF
                 in (s\<lparr> performanceThrottlingRatio := (if flt r (Fin 0) then Fin 0 else r) \<rparr>,
                     True))
              else (s, False))
           in if hasRatioChanged then
                (s'\<lparr> minAudibilityThreshold :=
                       fdiv LOUDNESS_TO_DISTANCE_RATIO
                            (fmul (Fin 2) (fsub (Fin 1) (performanceThrottlingRatio s'))),
                     framesSinceCutoffEvent := 0 \<rparr>, True)
              else (s', False))
        else (s, False))"

text \<open>
  One pass through the throttle at the top of the loop body, up to the increment of
  \<open>framesSinceCutoffEvent\<close>.
\<close>

definition throttle_frame :: "scheduler \<Rightarrow> scheduler \<times> bool" where
  "throttle_frame s =
    (let (s', hasRatioChanged) = adjust_cutoff (update_trailing_sleep_ratio s)
     in (if \<not> hasRatioChanged
         then s'\<lparr> framesSinceCutoffEvent := framesSinceCutoffEvent s' + 1 \<rparr> else s',
         hasRatioChanged))"

text \<open>
  One iteration of the loop, as far as the throttle sees it: the throttle, then the mix
  (which does not write the scheduler's state), then the assignment of \<open>usecToSleep\<close>
  from the clock at the bottom of the loop; that value is the input \<open>next_usec\<close>.
\<close>

definition run_frame :: "scheduler \<Rightarrow> int \<Rightarrow> scheduler" where
  "run_frame s next_usec = (fst (throttle_frame s))\<lparr> usecToSleep := next_usec \<rparr>"

definition run_frames :: "scheduler \<Rightarrow> int list \<Rightarrow> scheduler" where
  "run_frames s us = foldl run_frame s us"

text \<open>
  A run of the loop from the state \<open>s\<close>: \<open>us\<close> holds the values that the bottom of each
  iteration assigns to \<open>usecToSleep\<close>. \<open>frame_state s us j\<close> is the state at the top of
  iteration \<open>j\<close> (after \<open>j\<close> iterations), and \<open>adjusts s us j\<close> the value of
  \<open>hasRatioChanged\<close> in iteration \<open>j\<close>.
\<close>

definition frame_state :: "scheduler \<Rightarrow> int list \<Rightarrow> nat \<Rightarrow> scheduler" where
  "frame_state s us j = run_frames s (take j us)"



inductive reachable :: "scheduler \<Rightarrow> bool" where
  reach_init: "reachable scheduler_init"
| reach_frame: "reachable s \<Longrightarrow> reachable (run_frame s next_usec)"

text \<open>The threshold the spec's equation gives for a throttling ratio, in binary32.\<close>

definition threshold_of_ratio :: "f32 \<Rightarrow> f32" where
  "threshold_of_ratio r = fdiv LOUDNESS_TO_DISTANCE_RATIO (fmul (Fin 2) (fsub (Fin 1) r))"

text \<open>The raise of the throttling ratio, as the struggling branch computes it.\<close>

definition raise_ratio :: "f32 \<Rightarrow> f32" where
  "raise_ratio r = fadd r (fmul (Fin (1/2)) (fsub (Fin 1) r))"

text \<open>
  A scheduler that is behind: it did not sleep, its trailing sleep ratio is at most the
  binary32 value of 0.10, its throttling ratio is \<open>r\<close> and \<open>i\<close> frames have passed
  since the last adjustment.
\<close>

definition struggles :: "scheduler \<Rightarrow> f32 \<Rightarrow> int \<Rightarrow> bool" where
  "struggles s r i \<longleftrightarrow>
     usecToSleep s = 0 \<and> framesSinceCutoffEvent s = i \<and> performanceThrottlingRatio s = r \<and>
     (case trailingSleepRatio s of Fin t \<Rightarrow> 0 \<le> t \<and> t \<le> 13421773 / 134217728 | _ \<Rightarrow> False)"


section \<open>The mixer: vectors and rotations (glm)\<close>

text \<open>
  The spatializer computes in \<open>float\<close> with glm and libm (\<open>acos\<close>, \<open>sin\<close>, \<open>logf\<close>,
  \<open>powf\<close>), which have no exact binary32 specification. The arithmetic of the angles and
  of the attenuation is modelled in the reals: rounding is not modelled there. Where the
  float computation yields a NaN (a zero vector normalised, a zero quaternion inverted),
  the model says so. The audibility gate is the exception: it compares with the
  scheduler's threshold, and the distance and the quotient it compares are computed in
  binary32, operation by operation, as the code computes them.
\<close>

datatype vec3 = Vec3 real real real

datatype quat = Quat real real real real

fun vec_sub :: "vec3 \<Rightarrow> vec3 \<Rightarrow> vec3" where
  "vec_sub (Vec3 a b c) (Vec3 d e f) = Vec3 (a - d) (b - e) (c - f)"

fun vec_add :: "vec3 \<Rightarrow> vec3 \<Rightarrow> vec3" where
  "vec_add (Vec3 a b c) (Vec3 d e f) = Vec3 (a + d) (b + e) (c + f)"

fun vec_scale :: "real \<Rightarrow> vec3 \<Rightarrow> vec3" where
  "vec_scale k (Vec3 a b c) = Vec3 (k * a) (k * b) (k * c)"

fun glm_dot :: "vec3 \<Rightarrow> vec3 \<Rightarrow> real" where
  "glm_dot (Vec3 a b c) (Vec3 d e f) = a * d + b * e + c * f"

fun glm_cross :: "vec3 \<Rightarrow> vec3 \<Rightarrow> vec3" where
  "glm_cross (Vec3 a b c) (Vec3 d e f) = Vec3 (b * f - e * c) (c * d - f * a) (a * e - d * b)"

definition glm_length :: "vec3 \<Rightarrow> real" where
  "glm_length v = sqrt (glm_dot v v)"

text \<open>\<open>glm::normalize\<close> divides by the length; of the zero vector it is a vector of NaNs.\<close>

definition glm_normalize :: "vec3 \<Rightarrow> vec3 option" where
  "glm_normalize v = (if glm_length v = 0 then None else Some (vec_scale (1 / glm_length v) v))"

text \<open>\<open>glm::inverse\<close> of a quaternion: the conjugate over the squared norm.\<close>

fun glm_inverse :: "quat \<Rightarrow> quat option" where
  "glm_inverse (Quat w x y z) =
     (let n = w * w + x * x + y * y + z * z
      in if n = 0 then None else Some (Quat (w / n) (- x / n) (- y / n) (- z / n)))"

text \<open>The rotation \<open>q * v\<close> of a vector by a quaternion, as glm computes it.\<close>

fun quat_rotate :: "quat \<Rightarrow> vec3 \<Rightarrow> vec3" where
  "quat_rotate (Quat w x y z) v =
     (let uv = glm_cross (Vec3 x y z) v; uuv = glm_cross (Vec3 x y z) uv
      in vec_add v (vec_add (vec_scale (2 * w) uv) (vec_scale 2 uuv)))"

definition glm_angle :: "vec3 \<Rightarrow> vec3 \<Rightarrow> real" where
  "glm_angle a b = arccos (glm_dot a b)"

definition glm_orientedAngle :: "vec3 \<Rightarrow> vec3 \<Rightarrow> vec3 \<Rightarrow> real" where
  "glm_orientedAngle a b ref =
     (if glm_dot ref (glm_cross a b) < 0 then - glm_angle a b else glm_angle a b)"

fun set_y_zero :: "vec3 \<Rightarrow> vec3" where
  "set_y_zero (Vec3 a b c) = Vec3 a 0 c"

text \<open>
  The vectors of the audibility gate, in binary32. The positions of the ring buffers are
  \<open>float\<close>s: a real component of a position stands for the \<open>float\<close> that holds it.
  \<open>glm::length\<close> is the square root of \<open>x * x + y * y + z * z\<close>, every operation rounded.
\<close>

datatype fvec3 = FVec3 f32 f32 f32

fun fvec_sub :: "vec3 \<Rightarrow> vec3 \<Rightarrow> fvec3" where
  "fvec_sub (Vec3 a b c) (Vec3 d e f) =
     FVec3 (fsub (Fin a) (Fin d)) (fsub (Fin b) (Fin e)) (fsub (Fin c) (Fin f))"

fun fvec_length :: "fvec3 \<Rightarrow> f32" where
  "fvec_length (FVec3 x y z) = fsqrt (fadd (fadd (fmul x x) (fmul y y)) (fmul z z))"

section \<open>The mixer: ring buffers, nodes and the mix state\<close>

text \<open>
  Modelled from the spec: \<open>AABox\<close> (the unattenuated zone) is declared in the octree
  library, which is not among the sources; the spec calls it an axis-aligned box that
  contains a position, and the mixer builds one from a corner and its dimensions.
\<close>

record AABox =
  corner :: vec3
  dimensions :: vec3

fun is_within :: "real \<Rightarrow> real \<Rightarrow> real \<Rightarrow> bool" where
  "is_within v c d = (c \<le> v \<and> v \<le> c + d)"

fun box_contains :: "AABox \<Rightarrow> vec3 \<Rightarrow> bool" where
  "box_contains box (Vec3 a b c) =
     (case (corner box, dimensions box) of
        (Vec3 ca cb cc, Vec3 da db dc) \<Rightarrow> is_within a ca da \<and> is_within b cb db \<and> is_within c cc dc)"

datatype buffer_type = Microphone | Injector

text \<open>
  A \<open>PositionalAudioRingBuffer\<close> as the mixer reads it through its accessors (the class
  is not among the sources). \<open>address\<close> is the identity of the object, which the mixer
  compares as a pointer; \<open>buffer\<close> is the sample array (\<open>getBuffer\<close>), \<open>nextOutput\<close> the
  index in it of \<open>getNextOutput\<close>; \<open>radius\<close> and \<open>attenuationRatio\<close> are read of an
  injector only. Samples are \<open>int16_t\<close>: integers from -32768 to 32767.
\<close>

record ring_buffer =
  address :: nat
  bufferType :: buffer_type
  position :: vec3
  orientation :: quat
  isStereo :: bool
  nextOutputTrailingLoudness :: real
  listenerUnattenuatedZone :: "AABox option"
  radius :: real
  attenuationRatio :: real
  buffer :: "int list"
  sampleCapacity :: nat
  nextOutput :: nat
  shouldLoopbackForNode :: bool
  willBeAddedToMix :: bool

text \<open>
  Modelled from the spec: the frame constants are declared in AudioRingBuffer.h and the
  sample limits with them, none among the sources. The spec gives 480 interleaved samples
  to a stereo frame, 16-bit samples, and 20 as the usual \<open>SAMPLE_PHASE_DELAY_AT_90\<close>.
\<close>

definition NETWORK_BUFFER_LENGTH_SAMPLES_STEREO :: nat where
  "NETWORK_BUFFER_LENGTH_SAMPLES_STEREO = 480"

definition SAMPLE_PHASE_DELAY_AT_90 :: nat where
  "SAMPLE_PHASE_DELAY_AT_90 = 20"

definition MIN_SAMPLE_VALUE :: int where
  "MIN_SAMPLE_VALUE = - 32768"

definition MAX_SAMPLE_VALUE :: int where
  "MAX_SAMPLE_VALUE = 32767"

definition PI_OVER_TWO :: real where
  "PI_OVER_TWO = pi / 2"

text \<open>The members of the mixer that a mix writes.\<close>

record mixer =
  clientSamples :: "int list"
  sumMixes :: nat

text \<open>A node of the node list: its UUID (which \<open>operator==\<close> compares) and its linked
  data, the ring buffers of an \<open>AudioMixerClientData\<close>.\<close>

record node =
  uuid :: nat
  linkedData :: "ring_buffer list option"

section \<open>The spatializer: the first half of \<open>addBufferToMixForListeningNodeWithBuffer\<close>\<close>

text \<open>The locals that the second half of the function reads.\<close>

record mix_params =
  shouldAttenuate :: bool
  bearingRelativeAngleToSource :: real
  attenuationCoefficient :: real
  numSamplesDelay :: int
  weakChannelAmplitudeRatio :: real

datatype spatialized = Skipped | Spatial mix_params | NotANumber

text \<open>A \<open>float\<close> converted to an integer type: the fraction is discarded.\<close>

definition truncate_real :: "real \<Rightarrow> int" where
  "truncate_real x = (if 0 \<le> x then \<lfloor>x\<rfloor> else \<lceil>x\<rceil>)"

definition unattenuated :: mix_params where
  "unattenuated =
     \<lparr> shouldAttenuate = False, bearingRelativeAngleToSource = 0, attenuationCoefficient = 1,
       numSamplesDelay = 0, weakChannelAmplitudeRatio = 1 \<rparr>"

text \<open>The local \<open>distanceBetween\<close>, a \<open>float\<close>: the length of the relative position,
  held at \<open>EPSILON\<close> from below.\<close>

definition distanceBetween :: "real \<Rightarrow> ring_buffer \<Rightarrow> ring_buffer \<Rightarrow> f32" where
  "distanceBetween EPSILON bufferToAdd listeningNodeBuffer =
     (let d = fvec_length (fvec_sub (position bufferToAdd) (position listeningNodeBuffer))
      in if flt d (Fin EPSILON) then Fin EPSILON else d)"

text \<open>The angle of delivery: between the forward axis and the relative position (of the
  source, from the listener) turned into the source's frame.\<close>

definition angleOfDelivery :: "ring_buffer \<Rightarrow> ring_buffer \<Rightarrow> real option" where
  "angleOfDelivery bufferToAdd listeningNodeBuffer =
     (case glm_inverse (orientation bufferToAdd) of
        None \<Rightarrow> None
      | Some inverseOrientation \<Rightarrow>
          (case glm_normalize (quat_rotate inverseOrientation
                  (vec_sub (position bufferToAdd) (position listeningNodeBuffer))) of
             None \<Rightarrow> None
           | Some n \<Rightarrow> Some (glm_angle (Vec3 0 0 (- 1)) n)))"

definition MAX_OFF_AXIS_ATTENUATION :: real where
  "MAX_OFF_AXIS_ATTENUATION = 2 / 10"

definition OFF_AXIS_ATTENUATION_FORMULA_STEP :: real where
  "OFF_AXIS_ATTENUATION_FORMULA_STEP = (1 - MAX_OFF_AXIS_ATTENUATION) / 2"

definition offAxisCoefficient :: "real \<Rightarrow> real" where
  "offAxisCoefficient angle =
     MAX_OFF_AXIS_ATTENUATION + OFF_AXIS_ATTENUATION_FORMULA_STEP * (angle / PI_OVER_TWO)"

text \<open>The distance coefficient, already clamped to 1 from above.\<close>

definition distanceCoefficient :: "real \<Rightarrow> real" where
  "distanceCoefficient distanceSquareToSource =
     (let DISTANCE_SCALE = 25 / 10; GEOMETRIC_AMPLITUDE_SCALAR = 3 / 10;
          DISTANCE_LOG_BASE = 25 / 10;
          DISTANCE_SCALE_LOG = ln DISTANCE_SCALE / ln DISTANCE_LOG_BASE
      in min 1 (GEOMETRIC_AMPLITUDE_SCALAR powr
                 (DISTANCE_SCALE_LOG
                   + (5 / 10 * ln distanceSquareToSource / ln DISTANCE_LOG_BASE) - 1)))"

text \<open>The bearing of the source in the listener's frame, about the y axis.\<close>

definition bearingToSource :: "ring_buffer \<Rightarrow> ring_buffer \<Rightarrow> real option" where
  "bearingToSource bufferToAdd listeningNodeBuffer =
     (case glm_inverse (orientation listeningNodeBuffer) of
        None \<Rightarrow> None
      | Some inverseOrientation \<Rightarrow>
          (case glm_normalize (set_y_zero (quat_rotate inverseOrientation
                  (vec_sub (position bufferToAdd) (position listeningNodeBuffer)))) of
             None \<Rightarrow> None
           | Some n \<Rightarrow> Some (glm_orientedAngle (Vec3 0 0 (- 1)) n (Vec3 0 1 0))))"

text \<open>
  The first half of the function, to the end of the block under
  \<open>if (shouldAttenuate)\<close>. \<open>EPSILON\<close> is declared in SharedUtil.h, which is not among the
  sources, and is a parameter (the value of a \<open>float\<close>); the threshold is the scheduler's
  binary32 member, and the test against it is the code's binary32 test.
\<close>

definition spatialize ::
  "real \<Rightarrow> f32 \<Rightarrow> ring_buffer \<Rightarrow> ring_buffer \<Rightarrow> spatialized" where
  "spatialize EPSILON threshold bufferToAdd listeningNodeBuffer =
    (if address bufferToAdd = address listeningNodeBuffer then Spatial unattenuated
     else if fle (fdiv (Fin (nextOutputTrailingLoudness bufferToAdd))
                       (distanceBetween EPSILON bufferToAdd listeningNodeBuffer)) threshold
       then Skipped
     else if (case listenerUnattenuatedZone bufferToAdd of
                None \<Rightarrow> False
              | Some zone \<Rightarrow> box_contains zone (position listeningNodeBuffer))
       then Spatial unattenuated
     else
       (let relativePosition = vec_sub (position bufferToAdd) (position listeningNodeBuffer);
            distanceSquareToSource = glm_dot relativePosition relativePosition;
            r = (if bufferType bufferToAdd = Injector then radius bufferToAdd else 0);
            ratio = (if bufferType bufferToAdd = Injector then attenuationRatio bufferToAdd else 1)
        in if r = 0 \<or> r * r < distanceSquareToSource then
             (case (if 0 < r then Some (distanceSquareToSource - r * r, ratio)
                    else map_option (\<lambda>angle. (distanceSquareToSource, ratio * offAxisCoefficient angle))
                           (angleOfDelivery bufferToAdd listeningNodeBuffer)) of
                None \<Rightarrow> NotANumber
              | Some (d2, coefficient) \<Rightarrow>
                  (case bearingToSource bufferToAdd listeningNodeBuffer of
                     None \<Rightarrow> NotANumber
                   | Some bearing \<Rightarrow>
                       (let sinRatio = \<bar>sin bearing\<bar>
                        in Spatial
                             \<lparr> shouldAttenuate = True,
                               bearingRelativeAngleToSource = bearing,
                               attenuationCoefficient = coefficient * distanceCoefficient d2,
                               numSamplesDelay = truncate_real (real SAMPLE_PHASE_DELAY_AT_90 * sinRatio),
                               weakChannelAmplitudeRatio = 1 - 5 / 10 * sinRatio \<rparr>)))
           else Spatial
                  \<lparr> shouldAttenuate = True, bearingRelativeAngleToSource = 0,
                    attenuationCoefficient = ratio, numSamplesDelay = 0,
                    weakChannelAmplitudeRatio = 1 \<rparr>))"

section \<open>The mix: the second half of the function\<close>

text \<open>
  Reading or writing an array outside its bounds and converting a \<open>float\<close> to an integer
  type that cannot hold it are undefined in C++; the mix is \<open>None\<close> where the code does
  either.
\<close>

definition read_at :: "int list \<Rightarrow> int \<Rightarrow> int option" where
  "read_at xs i = (if 0 \<le> i \<and> nat i < length xs then Some (xs ! nat i) else None)"

definition write_at :: "int list \<Rightarrow> int \<Rightarrow> int \<Rightarrow> int list option" where
  "write_at xs i v = (if 0 \<le> i \<and> nat i < length xs then Some (xs[nat i := v]) else None)"

definition to_int16 :: "real \<Rightarrow> int option" where
  "to_int16 x = (let t = truncate_real x in if - 32768 \<le> t \<and> t \<le> 32767 then Some t else None)"

definition to_int32 :: "real \<Rightarrow> int option" where
  "to_int32 x =
     (let t = truncate_real x in if - 2147483648 \<le> t \<and> t \<le> 2147483647 then Some t else None)"

text \<open>The sum of two \<open>int\<close>s, undefined when it overflows.\<close>

definition int_add :: "int \<Rightarrow> int \<Rightarrow> int option" where
  "int_add a b = (if - 2147483648 \<le> a + b \<and> a + b \<le> 2147483647 then Some (a + b) else None)"

text \<open>
  The MMX intrinsics: \<open>_mm_set_pi16 (e3, e2, e1, e0)\<close> packs four 16-bit lanes, \<open>e0\<close> in
  lane 0, and \<open>_mm_adds_pi16\<close> adds lane by lane with signed saturation (PADDSW). The
  packed value is the list of its lanes, which is also how the code reads it back
  (\<open>shortResults[k]\<close> is lane \<open>k\<close>).
\<close>

definition saturate16 :: "int \<Rightarrow> int" where
  "saturate16 v = max (- 32768) (min 32767 v)"

definition mm_set_pi16 :: "int \<Rightarrow> int \<Rightarrow> int \<Rightarrow> int \<Rightarrow> int list" where
  "mm_set_pi16 e3 e2 e1 e0 = [e0, e1, e2, e3]"

definition mm_adds_pi16 :: "int list \<Rightarrow> int list \<Rightarrow> int list" where
  "mm_adds_pi16 a b = map2 (\<lambda>x y. saturate16 (x + y)) a b"

definition glm_clamp :: "int \<Rightarrow> int \<Rightarrow> int \<Rightarrow> int" where
  "glm_clamp v lo hi = min (max v lo) hi"

text \<open>The sample \<open>nextOutputStart[k]\<close>.\<close>

definition next_output_at :: "ring_buffer \<Rightarrow> int \<Rightarrow> int option" where
  "next_output_at b k = read_at (buffer b) (int (nextOutput b) + k)"

text \<open>If the bearing is positive the delayed channel is the right one.\<close>

definition delayedChannelOffset :: "mix_params \<Rightarrow> int" where
  "delayedChannelOffset p = (if 0 < bearingRelativeAngleToSource p then 1 else 0)"

definition goodChannelOffset :: "mix_params \<Rightarrow> int" where
  "goodChannelOffset p = (if delayedChannelOffset p = 0 then 1 else 0)"

text \<open>The body of the first loop of the spatialized branch, for one \<open>s\<close>.\<close>

definition mono_body ::
  "ring_buffer \<Rightarrow> mix_params \<Rightarrow> int \<Rightarrow> int list \<Rightarrow> int list option" where
  "mono_body bufferToAdd p s cs =
    (let SINGLE_STEREO_OFFSET = 2;
         delayedChannelIndex = s + numSamplesDelay p * 2 + delayedChannelOffset p
     in do {
        n0 \<leftarrow> next_output_at bufferToAdd (s div 2);
        correct0 \<leftarrow> to_int16 (real_of_int n0 * attenuationCoefficient p);
        n1 \<leftarrow> next_output_at bufferToAdd (s div 2 + 1);
        correct1 \<leftarrow> to_int16 (real_of_int n1 * attenuationCoefficient p);
        delay0 \<leftarrow> to_int16 (real_of_int correct0 * weakChannelAmplitudeRatio p);
        delay1 \<leftarrow> to_int16 (real_of_int correct1 * weakChannelAmplitudeRatio p);
        c3 \<leftarrow> read_at cs (s + goodChannelOffset p);
        c2 \<leftarrow> read_at cs (s + goodChannelOffset p + SINGLE_STEREO_OFFSET);
        c1 \<leftarrow> read_at cs delayedChannelIndex;
        c0 \<leftarrow> read_at cs (delayedChannelIndex + SINGLE_STEREO_OFFSET);
        let shortResults = mm_adds_pi16 (mm_set_pi16 c3 c2 c1 c0)
                                        (mm_set_pi16 correct0 correct1 delay0 delay1);
        cs1 \<leftarrow> write_at cs (s + goodChannelOffset p) (shortResults ! 3);
        cs2 \<leftarrow> write_at cs1 (s + goodChannelOffset p + SINGLE_STEREO_OFFSET) (shortResults ! 2);
        cs3 \<leftarrow> write_at cs2 delayedChannelIndex (shortResults ! 1);
        write_at cs3 (delayedChannelIndex + SINGLE_STEREO_OFFSET) (shortResults ! 0)
      })"

function mono_loop ::
  "ring_buffer \<Rightarrow> mix_params \<Rightarrow> int \<Rightarrow> int list \<Rightarrow> int list option" where
  "mono_loop bufferToAdd p s cs =
     (if s < int NETWORK_BUFFER_LENGTH_SAMPLES_STEREO then
        (case mono_body bufferToAdd p s cs of
           None \<Rightarrow> None
         | Some cs' \<Rightarrow> mono_loop bufferToAdd p (s + 4) cs')
      else Some cs)"
  by pat_completeness auto
termination
  by (relation "measure (\<lambda>(b, p, s, cs). nat (int NETWORK_BUFFER_LENGTH_SAMPLES_STEREO - s))") auto

text \<open>
  The samples before the next output. \<open>delayNextOutputStart\<close> is a pointer into the sample
  array; the model holds its index from \<open>bufferStart\<close>.
\<close>

definition delayNextOutputStart :: "ring_buffer \<Rightarrow> mix_params \<Rightarrow> int" where
  "delayNextOutputStart bufferToAdd p =
     (let d = int (nextOutput bufferToAdd) - numSamplesDelay p
      in if d < 0 then int (sampleCapacity bufferToAdd) - numSamplesDelay p else d)"

text \<open>The value \<open>delayNextOutputStart[i] * attenuationAndWeakChannelRatio\<close>, as a lane.\<close>

definition delay_sample :: "ring_buffer \<Rightarrow> mix_params \<Rightarrow> int \<Rightarrow> int option" where
  "delay_sample bufferToAdd p i =
     do {
       x \<leftarrow> read_at (buffer bufferToAdd) (delayNextOutputStart bufferToAdd p + i);
       to_int16 (real_of_int x * (attenuationCoefficient p * weakChannelAmplitudeRatio p))
     }"

text \<open>Four delayed samples at once (the body of the \<open>while\<close> loop).\<close>

definition delay_four ::
  "ring_buffer \<Rightarrow> mix_params \<Rightarrow> int \<Rightarrow> int list \<Rightarrow> int list option" where
  "delay_four bufferToAdd p i cs =
    (let parentIndex = i * 2; off = delayedChannelOffset p
     in do {
        c3 \<leftarrow> read_at cs (parentIndex + off);
        c2 \<leftarrow> read_at cs (parentIndex + 2 + off);
        c1 \<leftarrow> read_at cs (parentIndex + 4 + off);
        c0 \<leftarrow> read_at cs (parentIndex + 6 + off);
        a3 \<leftarrow> delay_sample bufferToAdd p i;
        a2 \<leftarrow> delay_sample bufferToAdd p (i + 1);
        a1 \<leftarrow> delay_sample bufferToAdd p (i + 2);
        a0 \<leftarrow> delay_sample bufferToAdd p (i + 3);
        let shortResults = mm_adds_pi16 (mm_set_pi16 c3 c2 c1 c0) (mm_set_pi16 a3 a2 a1 a0);
        cs1 \<leftarrow> write_at cs (parentIndex + off) (shortResults ! 3);
        cs2 \<leftarrow> write_at cs1 (parentIndex + 2 + off) (shortResults ! 2);
        cs3 \<leftarrow> write_at cs2 (parentIndex + 4 + off) (shortResults ! 1);
        write_at cs3 (parentIndex + 6 + off) (shortResults ! 0)
      })"

definition delay_three ::
  "ring_buffer \<Rightarrow> mix_params \<Rightarrow> int \<Rightarrow> int list \<Rightarrow> int list option" where
  "delay_three bufferToAdd p i cs =
    (let parentIndex = i * 2; off = delayedChannelOffset p
     in do {
        c3 \<leftarrow> read_at cs (parentIndex + off);
        c2 \<leftarrow> read_at cs (parentIndex + 2 + off);
        c1 \<leftarrow> read_at cs (parentIndex + 4 + off);
        a3 \<leftarrow> delay_sample bufferToAdd p i;
        a2 \<leftarrow> delay_sample bufferToAdd p (i + 1);
        a1 \<leftarrow> delay_sample bufferToAdd p (i + 2);
        let shortResults = mm_adds_pi16 (mm_set_pi16 c3 c2 c1 0) (mm_set_pi16 a3 a2 a1 0);
        cs1 \<leftarrow> write_at cs (parentIndex + off) (shortResults ! 3);
        cs2 \<leftarrow> write_at cs1 (parentIndex + 2 + off) (shortResults ! 2);
        write_at cs2 (parentIndex + 4 + off) (shortResults ! 1)
      })"

definition delay_two ::
  "ring_buffer \<Rightarrow> mix_params \<Rightarrow> int \<Rightarrow> int list \<Rightarrow> int list option" where
  "delay_two bufferToAdd p i cs =
    (let parentIndex = i * 2; off = delayedChannelOffset p
     in do {
        c3 \<leftarrow> read_at cs (parentIndex + off);
        c2 \<leftarrow> read_at cs (parentIndex + 2 + off);
        a3 \<leftarrow> delay_sample bufferToAdd p i;
        a2 \<leftarrow> delay_sample bufferToAdd p (i + 1);
        let shortResults = mm_adds_pi16 (mm_set_pi16 c3 c2 0 0) (mm_set_pi16 a3 a2 0 0);
        cs1 \<leftarrow> write_at cs (parentIndex + off) (shortResults ! 3);
        write_at cs1 (parentIndex + 2 + off) (shortResults ! 2)
      })"

definition delay_one ::
  "ring_buffer \<Rightarrow> mix_params \<Rightarrow> int \<Rightarrow> int list \<Rightarrow> int list option" where
  "delay_one bufferToAdd p i cs =
    (let parentIndex = i * 2; off = delayedChannelOffset p
     in do {
        c3 \<leftarrow> read_at cs (parentIndex + off);
        a3 \<leftarrow> delay_sample bufferToAdd p i;
        let shortResults = mm_adds_pi16 (mm_set_pi16 c3 0 0 0) (mm_set_pi16 a3 0 0 0);
        write_at cs (parentIndex + off) (shortResults ! 3)
      })"

text \<open>The \<open>while\<close> loop; it returns the index it stopped at with the samples.\<close>

function delay_loop ::
  "ring_buffer \<Rightarrow> mix_params \<Rightarrow> int \<Rightarrow> int list \<Rightarrow> (int \<times> int list) option" where
  "delay_loop bufferToAdd p i cs =
     (if i + 3 < numSamplesDelay p then
        (case delay_four bufferToAdd p i cs of
           None \<Rightarrow> None
         | Some cs' \<Rightarrow> delay_loop bufferToAdd p (i + 4) cs')
      else Some (i, cs))"
  by pat_completeness auto
termination
  by (relation "measure (\<lambda>(b, p, i, cs). nat (numSamplesDelay p - i))") auto

definition mix_delay :: "ring_buffer \<Rightarrow> mix_params \<Rightarrow> int list \<Rightarrow> int list option" where
  "mix_delay bufferToAdd p cs =
     (if 0 < numSamplesDelay p then
        do {
          (i, cs') \<leftarrow> delay_loop bufferToAdd p 0 cs;
          if i + 2 < numSamplesDelay p then delay_three bufferToAdd p i cs'
          else if i + 1 < numSamplesDelay p then delay_two bufferToAdd p i cs'
          else if i < numSamplesDelay p then delay_one bufferToAdd p i cs'
          else Some cs'
        }
      else Some cs)"

text \<open>The spatialized branch: a mono buffer that is attenuated.\<close>

definition mix_mono :: "ring_buffer \<Rightarrow> mix_params \<Rightarrow> int list \<Rightarrow> int list option" where
  "mix_mono bufferToAdd p cs =
     do { cs' \<leftarrow> mono_loop bufferToAdd p 0 cs; mix_delay bufferToAdd p cs' }"

text \<open>The other branch: a stereo buffer or an unattenuated one. One assignment of the
  loop body, to \<open>_clientSamples[s + k]\<close>.\<close>

definition stereo_add ::
  "ring_buffer \<Rightarrow> mix_params \<Rightarrow> int \<Rightarrow> int \<Rightarrow> int list \<Rightarrow> int list option" where
  "stereo_add bufferToAdd p s k cs =
    (let stereoDivider = (if isStereo bufferToAdd then 1 else 2);
         coefficient = (if \<not> shouldAttenuate p then 1 else attenuationCoefficient p)
     in do {
        c \<leftarrow> read_at cs (s + k);
        n \<leftarrow> next_output_at bufferToAdd (s div stereoDivider + k div stereoDivider);
        v \<leftarrow> to_int32 (real_of_int n * coefficient);
        sum \<leftarrow> int_add c v;
        write_at cs (s + k) (glm_clamp sum MIN_SAMPLE_VALUE MAX_SAMPLE_VALUE)
      })"

definition stereo_body ::
  "ring_buffer \<Rightarrow> mix_params \<Rightarrow> int \<Rightarrow> int list \<Rightarrow> int list option" where
  "stereo_body bufferToAdd p s cs =
     do {
       cs1 \<leftarrow> stereo_add bufferToAdd p s 0 cs;
       cs2 \<leftarrow> stereo_add bufferToAdd p s 1 cs1;
       cs3 \<leftarrow> stereo_add bufferToAdd p s 2 cs2;
       stereo_add bufferToAdd p s 3 cs3
     }"

function stereo_loop ::
  "ring_buffer \<Rightarrow> mix_params \<Rightarrow> int \<Rightarrow> int list \<Rightarrow> int list option" where
  "stereo_loop bufferToAdd p s cs =
     (if s < int NETWORK_BUFFER_LENGTH_SAMPLES_STEREO then
        (case stereo_body bufferToAdd p s cs of
           None \<Rightarrow> None
         | Some cs' \<Rightarrow> stereo_loop bufferToAdd p (s + 4) cs')
      else Some cs)"
  by pat_completeness auto
termination
  by (relation "measure (\<lambda>(b, p, s, cs). nat (int NETWORK_BUFFER_LENGTH_SAMPLES_STEREO - s))") auto

text \<open>
  \<open>AudioMixer::addBufferToMixForListeningNodeWithBuffer\<close>. A NaN among the locals is
  converted to an integer by the mix, which is undefined.
\<close>

definition addBufferToMixForListeningNodeWithBuffer ::
  "real \<Rightarrow> f32 \<Rightarrow> ring_buffer \<Rightarrow> ring_buffer \<Rightarrow> mixer \<Rightarrow> mixer option" where
  "addBufferToMixForListeningNodeWithBuffer EPSILON threshold bufferToAdd listeningNodeBuffer m =
    (case spatialize EPSILON threshold bufferToAdd listeningNodeBuffer of
       Skipped \<Rightarrow> Some m
     | NotANumber \<Rightarrow> None
     | Spatial p \<Rightarrow>
         do {
           cs \<leftarrow> (if \<not> isStereo bufferToAdd \<and> shouldAttenuate p
                 then mix_mono bufferToAdd p (clientSamples m)
                 else stereo_loop bufferToAdd p 0 (clientSamples m));
           Some (m\<lparr> clientSamples := cs,
                    sumMixes := (if address bufferToAdd \<noteq> address listeningNodeBuffer
                                 then sumMixes m + 1 else sumMixes m) \<rparr>)
         })"

section \<open>\<open>AudioMixer::prepareMixForListeningNode\<close>\<close>

text \<open>
  Modelled from the spec: \<open>getAvatarAudioRingBuffer\<close> belongs to AudioMixerClientData,
  which is not among the sources; the spec gives a listener a reference to its own
  Microphone source, among the sources it owns.
\<close>

definition getAvatarAudioRingBuffer :: "ring_buffer list \<Rightarrow> ring_buffer option" where
  "getAvatarAudioRingBuffer bs = find (\<lambda>b. bufferType b = Microphone) bs"

text \<open>The inner loop, over the ring buffers of one node of the list.\<close>

fun mix_ring_buffers ::
  "real \<Rightarrow> f32 \<Rightarrow> node \<Rightarrow> ring_buffer \<Rightarrow> node \<Rightarrow> ring_buffer list \<Rightarrow> mixer \<Rightarrow> mixer option" where
  "mix_ring_buffers EPSILON threshold listener nodeRingBuffer otherNode [] m = Some m"
| "mix_ring_buffers EPSILON threshold listener nodeRingBuffer otherNode (otherNodeBuffer # rest) m =
     (if (uuid otherNode \<noteq> uuid listener \<or> shouldLoopbackForNode otherNodeBuffer)
          \<and> willBeAddedToMix otherNodeBuffer
          \<and> 0 < nextOutputTrailingLoudness otherNodeBuffer
      then (case addBufferToMixForListeningNodeWithBuffer EPSILON threshold otherNodeBuffer
                   nodeRingBuffer m of
              None \<Rightarrow> None
            | Some m' \<Rightarrow> mix_ring_buffers EPSILON threshold listener nodeRingBuffer otherNode rest m')
      else mix_ring_buffers EPSILON threshold listener nodeRingBuffer otherNode rest m)"

text \<open>The outer loop, over the node list.\<close>

fun mix_nodes ::
  "real \<Rightarrow> f32 \<Rightarrow> node \<Rightarrow> ring_buffer \<Rightarrow> node list \<Rightarrow> mixer \<Rightarrow> mixer option" where
  "mix_nodes EPSILON threshold listener nodeRingBuffer [] m = Some m"
| "mix_nodes EPSILON threshold listener nodeRingBuffer (otherNode # rest) m =
     (case linkedData otherNode of
        None \<Rightarrow> mix_nodes EPSILON threshold listener nodeRingBuffer rest m
      | Some ringBuffers \<Rightarrow>
          (case mix_ring_buffers EPSILON threshold listener nodeRingBuffer otherNode ringBuffers m of
             None \<Rightarrow> None
           | Some m' \<Rightarrow> mix_nodes EPSILON threshold listener nodeRingBuffer rest m'))"

text \<open>
  The \<open>memset\<close> zeroes one stereo frame, the block that is sent; \<open>_clientSamples\<close> is
  longer (AudioMixer.h is not among the sources), and what lies after the block is kept.
  \<open>run\<close> calls the function only for a node with linked data and an avatar ring buffer.
\<close>

definition zero_client_mix :: "int list \<Rightarrow> int list option" where
  "zero_client_mix cs =
     (if NETWORK_BUFFER_LENGTH_SAMPLES_STEREO \<le> length cs
      then Some (replicate NETWORK_BUFFER_LENGTH_SAMPLES_STEREO 0
                  @ drop NETWORK_BUFFER_LENGTH_SAMPLES_STEREO cs)
      else None)"

definition prepareMixForListeningNode ::
  "real \<Rightarrow> f32 \<Rightarrow> node list \<Rightarrow> node \<Rightarrow> mixer \<Rightarrow> mixer option" where
  "prepareMixForListeningNode EPSILON threshold nodeList listener m =
     do {
       ringBuffers \<leftarrow> linkedData listener;
       nodeRingBuffer \<leftarrow> getAvatarAudioRingBuffer ringBuffers;
       cs \<leftarrow> zero_client_mix (clientSamples m);
       mix_nodes EPSILON threshold listener nodeRingBuffer nodeList (m\<lparr> clientSamples := cs \<rparr>)
     }"

text \<open>The block of the mix that is sent to the listener.\<close>

definition output_block :: "mixer \<Rightarrow> int list" where
  "output_block m = take NETWORK_BUFFER_LENGTH_SAMPLES_STEREO (clientSamples m)"

section \<open>Examples and the notions that the statements use\<close>

text \<open>
  The examples take for \<open>EPSILON\<close> the binary32 value nearest to \<open>10^-6\<close> and for the
  threshold the one of the scheduler at startup; their positions and loudnesses are
  binary32 values.
\<close>

definition EPSILON_float :: real where
  "EPSILON_float = 8796093 / 8796093022208"

definition quiet_microphone :: ring_buffer where
  "quiet_microphone =
     \<lparr> address = 0, bufferType = Microphone, position = Vec3 0 0 0,
       orientation = Quat 1 0 0 0, isStereo = False, nextOutputTrailingLoudness = 1,
       listenerUnattenuatedZone = None, radius = 0, attenuationRatio = 1,
       buffer = replicate 2400 1000, sampleCapacity = 2400, nextOutput = 240,
       shouldLoopbackForNode = False, willBeAddedToMix = True \<rparr>"

text \<open>A source 8192 away whose loudness over that distance is the startup threshold.\<close>

definition far_source :: ring_buffer where
  "far_source = quiet_microphone\<lparr> address := 1, position := Vec3 8192 0 0,
     nextOutputTrailingLoudness := 2748779 / 67108864 \<rparr>"

definition empty_mix :: mixer where
  "empty_mix = \<lparr> clientSamples = replicate 520 0, sumMixes = 0 \<rparr>"

definition differ_in_unlooped_samples :: "ring_buffer \<Rightarrow> ring_buffer \<Rightarrow> bool" where
  "differ_in_unlooped_samples b b' \<longleftrightarrow>
     (if shouldLoopbackForNode b then b' = b else b' = b\<lparr> buffer := buffer b' \<rparr>)"

definition self_varied :: "nat \<Rightarrow> node \<Rightarrow> node \<Rightarrow> bool" where
  "self_varied me n n' \<longleftrightarrow>
     (if uuid n = me
      then uuid n' = me
           \<and> rel_option (list_all2 differ_in_unlooped_samples) (linkedData n) (linkedData n')
      else n' = n)"

definition point_source :: "ring_buffer \<Rightarrow> bool" where
  "point_source b \<longleftrightarrow> bufferType b = Microphone \<or> radius b = 0"

definition in_unattenuated_zone :: "ring_buffer \<Rightarrow> ring_buffer \<Rightarrow> bool" where
  "in_unattenuated_zone b l \<longleftrightarrow>
     (case listenerUnattenuatedZone b of
        None \<Rightarrow> False
      | Some zone \<Rightarrow> box_contains zone (position l))"

definition injector_ratio :: "ring_buffer \<Rightarrow> real" where
  "injector_ratio b = (if bufferType b = Injector then attenuationRatio b else 1)"

definition distanceSquareToSource :: "ring_buffer \<Rightarrow> ring_buffer \<Rightarrow> real" where
  "distanceSquareToSource b l =
     glm_dot (vec_sub (position b) (position l)) (vec_sub (position b) (position l))"

text \<open>A listener \<open>2^-21\<close> behind the microphone, nearer than \<open>EPSILON\<close>; one in front of
  it; and one at its very position.\<close>

definition close_listener :: ring_buffer where
  "close_listener = quiet_microphone\<lparr> address := 2, position := Vec3 0 0 (1 / 2 ^ 21) \<rparr>"


definition listener_in_front :: ring_buffer where
  "listener_in_front = quiet_microphone\<lparr> address := 3, position := Vec3 0 0 (- 1) \<rparr>"

definition muted_listener :: node where
  "muted_listener = \<lparr> uuid = 7, linkedData = Some [quiet_microphone] \<rparr>"

definition muted_listener_other_samples :: node where
  "muted_listener_other_samples =
     \<lparr> uuid = 7, linkedData = Some [quiet_microphone\<lparr> buffer := replicate 2400 (- 31) \<rparr>] \<rparr>"

definition far_node :: node where
  "far_node = \<lparr> uuid = 8, linkedData = Some [far_source] \<rparr>"

definition sample_in_range :: "int \<Rightarrow> bool" where
  "sample_in_range x \<longleftrightarrow> MIN_SAMPLE_VALUE \<le> x \<and> x \<le> MAX_SAMPLE_VALUE"






section \<open>Facts about binary32 rounding\<close>

lemma bexp_bounds:
  assumes "0 < x"
  shows "2 powi (bexp x) \<le> x" and "x < 2 powi (bexp x + 1)"
proof -
  have "2 powi (bexp x) \<le> x \<and> x < 2 powi (bexp x + 1)"
  proof (cases "1 \<le> x")
    case True
    define n where "n = \<lfloor>x\<rfloor>"
    have n: "0 < n" using True by (simp add: n_def)
    have b: "2 ^ nat (bitlen n - 1) \<le> n" "n < 2 ^ nat (bitlen n)"
      using bitlen_bounds [OF n] by simp_all
    have k: "1 \<le> bitlen n" using n by (simp add: bitlen_alt_def)
    have e: "bexp x = bitlen n - 1" using True by (simp add: bexp_def n_def)
    have "real_of_int (2 ^ nat (bitlen n - 1)) \<le> real_of_int n"
      using b(1) by (simp only: of_int_le_iff)
    then have "(2::real) ^ nat (bitlen n - 1) \<le> real_of_int n" by simp
    also have "\<dots> \<le> x" by (simp add: n_def)
    finally have lo: "2 powi (bexp x) \<le> x" using k by (simp add: e power_int_def)
    have "n + 1 \<le> 2 ^ nat (bitlen n)" using b(2) by simp
    then have "real_of_int (n + 1) \<le> real_of_int (2 ^ nat (bitlen n))"
      by (simp only: of_int_le_iff)
    then have "real_of_int (n + 1) \<le> (2::real) ^ nat (bitlen n)" by simp
    moreover have "x < real_of_int (n + 1)" by (simp add: n_def)
    ultimately have "x < (2::real) ^ nat (bitlen n)" by linarith
    then have hi: "x < 2 powi (bexp x + 1)" using k by (simp add: e power_int_def)
    show ?thesis using lo hi by simp
  next
    case False
    define y where "y = 1 / x"
    define m where "m = \<lceil>y\<rceil> - 1"
    have y1: "1 < y" using False assms by (simp add: y_def)
    have m: "0 < m" using y1 by (simp add: m_def)
    have b: "2 ^ nat (bitlen m - 1) \<le> m" "m < 2 ^ nat (bitlen m)"
      using bitlen_bounds [OF m] by simp_all
    have k: "1 \<le> bitlen m" using m by (simp add: bitlen_alt_def)
    have e: "bexp x = - bitlen m" using False by (simp add: bexp_def m_def y_def)
    have "m + 1 \<le> 2 ^ nat (bitlen m)" using b(2) by simp
    then have "real_of_int (m + 1) \<le> real_of_int (2 ^ nat (bitlen m))"
      by (simp only: of_int_le_iff)
    then have "real_of_int (m + 1) \<le> (2::real) ^ nat (bitlen m)" by simp
    moreover have "y \<le> real_of_int (m + 1)" by (simp add: m_def)
    ultimately have "y \<le> 2 ^ nat (bitlen m)" by linarith
    then have "1 / 2 ^ nat (bitlen m) \<le> x"
      using assms by (simp add: y_def field_simps)
    then have lo: "2 powi (bexp x) \<le> x"
      using k by (simp add: e power_int_def field_simps)
    have "real_of_int (2 ^ nat (bitlen m - 1)) \<le> real_of_int m"
      using b(1) by (simp only: of_int_le_iff)
    then have "(2::real) ^ nat (bitlen m - 1) \<le> real_of_int m" by simp
    moreover have "real_of_int m < y" by (simp add: m_def) linarith
    ultimately have "2 ^ nat (bitlen m - 1) < y" by linarith
    then have "x < 1 / 2 ^ nat (bitlen m - 1)"
      using assms by (simp add: y_def field_simps)
    moreover have "(2::real) powi (- bitlen m + 1) = 1 / 2 ^ nat (bitlen m - 1)"
    proof (cases "bitlen m = 1")
      case True
      then show ?thesis by simp
    next
      case False
      then have "- bitlen m + 1 < 0" using k by simp
      then show ?thesis
        by (simp add: power_int_def field_simps)
    qed
    ultimately have hi: "x < 2 powi (bexp x + 1)" by (simp add: e)
    show ?thesis using lo hi by simp
  qed
  then show "2 powi (bexp x) \<le> x" and "x < 2 powi (bexp x + 1)" by simp_all
qed

lemma bexp_mono: "0 < x \<Longrightarrow> x \<le> y \<Longrightarrow> bexp x \<le> bexp y"
proof -
  assume x: "0 < x" and xy: "x \<le> y"
  have "(2::real) powi (bexp x) < 2 powi (bexp y + 1)"
    using bexp_bounds(1) [OF x] bexp_bounds(2) [of y] x xy by linarith
  then have "bexp x < bexp y + 1"
    using power_int_increasing [of "bexp y + 1" "bexp x" "2::real"] by (cases "bexp x < bexp y + 1") auto
  then show ?thesis by simp
qed

lemma bexp_less: "0 < x \<Longrightarrow> x < 2 powi k \<Longrightarrow> bexp x < k"
proof -
  assume x: "0 < x" and xk: "x < 2 powi k"
  have "(2::real) powi (bexp x) < 2 powi k"
    using bexp_bounds(1) [OF x] xk by linarith
  then show ?thesis
    using power_int_increasing [of k "bexp x" "2::real"] by (cases "bexp x < k") auto
qed

lemma round_half_even_of_int [simp]: "round_half_even (of_int n) = n"
  by (simp add: round_half_even_def)

lemma round_half_even_le: "x \<le> of_int n \<Longrightarrow> round_half_even x \<le> n"
proof -
  assume a: "x \<le> of_int n"
  then have f: "\<lfloor>x\<rfloor> \<le> n" by (simp add: floor_le_iff)
  show ?thesis
  proof (cases "\<lfloor>x\<rfloor> = n")
    case True
    then have "x - of_int \<lfloor>x\<rfloor> \<le> 0" using a by simp
    then have "x - of_int \<lfloor>x\<rfloor> < 1 / 2" by linarith
    then show ?thesis using f by (simp add: round_half_even_def Let_def)
  next
    case False
    then have "\<lfloor>x\<rfloor> + 1 \<le> n" using f by simp
    then show ?thesis using f by (simp add: round_half_even_def Let_def)
  qed
qed

lemma round_half_even_nonneg: "0 \<le> x \<Longrightarrow> 0 \<le> round_half_even x"
proof -
  assume "0 \<le> x"
  then have "0 \<le> \<lfloor>x\<rfloor>" by simp
  then show ?thesis by (simp add: round_half_even_def Let_def)
qed

lemma round_half_even_upper: "of_int (round_half_even x) \<le> x + 1 / 2"
proof -
  have "of_int \<lfloor>x\<rfloor> \<le> x" by simp
  then show ?thesis by (simp add: round_half_even_def Let_def) linarith
qed

lemma ulp32_pos: "0 < ulp32 x"
  by (simp add: ulp32_def)

text \<open>A real is held exactly by a binary32 value when it is a 24-bit integer scaled by a
  power of two no smaller than that of the subnormals.\<close>

lemma ulp32_divides:
  assumes "0 < x" "x \<le> c" "c = of_int m * 2 powi j" "m < 2 ^ 24" "- 149 \<le> j"
  shows "\<exists>n. c / ulp32 x = of_int n"
proof -
  have c: "0 < c" using assms by linarith
  have "c < 2 ^ 24 * 2 powi j"
  proof -
    have "real_of_int m < 2 ^ 24" using assms(4) by (metis of_int_less_iff of_int_numeral of_int_power)
    then show ?thesis using assms(3) by (simp add: mult_strict_right_mono)
  qed
  also have "\<dots> = 2 powi (j + 24)" by (simp add: power_int_add)
  finally have "bexp c < j + 24" using bexp_less [OF c] by simp
  then have "bexp x < j + 24" using bexp_mono [OF assms(1,2)] by simp
  then have le: "max (bexp x) (- 126) - 23 \<le> j" using assms(5) by simp
  define d where "d = j - (max (bexp x) (- 126) - 23)"
  have d: "0 \<le> d" using le by (simp add: d_def)
  have "c / ulp32 x = of_int m * (2 powi j / 2 powi (max (bexp x) (- 126) - 23))"
    by (simp add: assms(3) ulp32_def)
  also have "2 powi j / 2 powi (max (bexp x) (- 126) - 23) = (2::real) powi d"
    by (simp add: d_def power_int_diff)
  also have "(2::real) powi d = of_int (2 ^ nat d)" using d by (simp add: power_int_def)
  finally have "c / ulp32 x = of_int (m * 2 ^ nat d)" by simp
  then show ?thesis by blast
qed

lemma f32_of_real_exact:
  assumes "0 < x" "x = of_int m * 2 powi j" "m < 2 ^ 24" "- 149 \<le> j" "x < 2 ^ 128"
  shows "f32_of_real x = Fin x"
proof -
  obtain n where n: "x / ulp32 x = of_int n"
    using ulp32_divides [OF assms(1) _ assms(2,3,4)] by auto
  have "round_pos x = of_int n * ulp32 x" by (simp add: round_pos_def n)
  also have "\<dots> = x" using n ulp32_pos [of x] by (simp add: field_simps)
  finally show ?thesis using assms(1,5) by (simp add: f32_of_real_def)
qed

lemma f32_of_real_le:
  assumes "0 \<le> x" "x \<le> c" "c = of_int m * 2 powi j" "m < 2 ^ 24" "- 149 \<le> j" "c < 2 ^ 128"
  shows "\<exists>y. f32_of_real x = Fin y \<and> 0 \<le> y \<and> y \<le> c"
proof (cases "x = 0")
  case True
  then show ?thesis using assms by (simp add: f32_of_real_def)
next
  case False
  then have x: "0 < x" using assms(1) by simp
  obtain n where n: "c / ulp32 x = of_int n"
    using ulp32_divides [OF x assms(2,3,4,5)] by auto
  have "x / ulp32 x \<le> c / ulp32 x"
    using assms(2) ulp32_pos [of x] by (simp add: divide_right_mono)
  then have "round_half_even (x / ulp32 x) \<le> n"
    using round_half_even_le n by simp
  then have "real_of_int (round_half_even (x / ulp32 x)) \<le> of_int n" by simp
  then have "round_pos x \<le> of_int n * ulp32 x"
    unfolding round_pos_def using ulp32_pos [of x] by (simp add: mult_right_mono)
  also have "\<dots> = c" using n ulp32_pos [of x] by (simp add: field_simps)
  finally have le: "round_pos x \<le> c" .
  have "0 \<le> round_half_even (x / ulp32 x)"
    using x ulp32_pos [of x] by (intro round_half_even_nonneg) simp
  then have ge: "0 \<le> round_pos x"
    unfolding round_pos_def using ulp32_pos [of x] by simp
  show ?thesis using x le ge assms(6) by (simp add: f32_of_real_def)
qed

lemma round_pos_upper:
  assumes "0 < x"
  shows "round_pos x \<le> x + x / 2 ^ 24 + 1 / 2 ^ 150"
proof -
  have u: "ulp32 x \<le> x / 2 ^ 23 + 1 / 2 ^ 149"
  proof (cases "- 126 \<le> bexp x")
    case True
    then have "ulp32 x = 2 powi (bexp x) / 2 ^ 23"
      by (simp add: ulp32_def power_int_diff max_def)
    also have "\<dots> \<le> x / 2 ^ 23" using bexp_bounds(1) [OF assms] by (simp add: divide_right_mono)
    finally show ?thesis by simp
  next
    case False
    then have "ulp32 x = 2 powi (- 149)" by (simp add: ulp32_def max_def)
    also have "\<dots> = 1 / 2 ^ 149" by (simp add: power_int_def field_simps)
    finally show ?thesis using assms by simp
  qed
  have "round_pos x \<le> (x / ulp32 x + 1 / 2) * ulp32 x"
    unfolding round_pos_def using round_half_even_upper [of "x / ulp32 x"] ulp32_pos [of x]
    by (simp add: mult_right_mono)
  also have "\<dots> = x + ulp32 x / 2" using ulp32_pos [of x] by (simp add: field_simps)
  finally show ?thesis using u by simp
qed

lemma f32_of_real_zero: "f32_of_real 0 = Fin 0"
  by (simp add: f32_of_real_def)

lemma float_of_int_zero: "float_of_int 0 = Fin 0"
  by (simp add: float_of_int_def f32_of_real_zero)

lemma f32_of_real_one: "f32_of_real 1 = Fin 1"
  by (rule f32_of_real_exact [where m = 1 and j = 0]) simp_all

lemma f32_of_real_two: "f32_of_real 2 = Fin 2"
  by (rule f32_of_real_exact [where m = 2 and j = 0]) simp_all

lemma f32_of_real_half: "f32_of_real (1 / 2) = Fin (1 / 2)"
  by (rule f32_of_real_exact [where m = 1 and j = "- 1"]) simp_all

lemma f32_of_real_upper:
  assumes "0 < x" "x \<le> 1"
  shows "\<exists>y. f32_of_real x = Fin y \<and> 0 \<le> y \<and> y \<le> 1 \<and> y \<le> x + x / 2 ^ 24 + 1 / 2 ^ 150"
proof -
  have "\<exists>y. f32_of_real x = Fin y \<and> 0 \<le> y \<and> y \<le> 1"
    by (rule f32_of_real_le [where m = 1 and j = 0]) (use assms in simp_all)
  then obtain y where y: "f32_of_real x = Fin y" "0 \<le> y" "y \<le> 1" by blast
  have "y = round_pos x"
    using y(1) assms(1) by (simp add: f32_of_real_def Let_def split: if_splits)
  then show ?thesis using y round_pos_upper [OF assms(1)] by simp
qed

lemma PREVIOUS_FRAMES_RATIO_value: "PREVIOUS_FRAMES_RATIO = Fin (4152361 / 4194304)"
  by code_simp

lemma CURRENT_FRAME_RATIO_value: "CURRENT_FRAME_RATIO = Fin (5368709 / 536870912)"
  by code_simp

lemma STRUGGLE_value: "STRUGGLE_TRIGGER_SLEEP_PERCENTAGE_THRESHOLD = Fin (13421773 / 134217728)"
  by code_simp

lemma BACK_OFF_value: "BACK_OFF_TRIGGER_SLEEP_PERCENTAGE_THRESHOLD = Fin (13421773 / 67108864)"
  by code_simp

lemma LOUDNESS_value: "LOUDNESS_TO_DISTANCE_RATIO = Fin (2748779 / 274877906944)"
  by code_simp

lemma send_interval_float: "float_of_int BUFFER_SEND_INTERVAL_USECS = Fin 10000"
proof -
  have "f32_of_real 10000 = Fin 10000"
    by (rule f32_of_real_exact [where m = 10000 and j = 0]) simp_all
  then show ?thesis by (simp add: float_of_int_def BUFFER_SEND_INTERVAL_USECS_def)
qed

lemma struggle_representable:
  "(13421773 / 134217728 :: real) = of_int 13421773 * 2 powi (- 27)"
  by (simp add: power_int_def field_simps)

lemma threshold_of_ratio_zero:
  "threshold_of_ratio (Fin 0) = fdiv LOUDNESS_TO_DISTANCE_RATIO (Fin 2)"
  by (simp add: threshold_of_ratio_def fsub_def f32_of_real_one f32_of_real_two)

lemma startup_threshold_value:
  "fdiv LOUDNESS_TO_DISTANCE_RATIO (Fin 2) = f32_of_real (1 / 200000)"
  by code_simp

section \<open>The throttle\<close>

lemma update_trailing_sleep_ratio_frames [simp]:
  "framesSinceCutoffEvent (update_trailing_sleep_ratio s) = framesSinceCutoffEvent s"
  by (simp add: update_trailing_sleep_ratio_def Let_def)

lemma update_trailing_sleep_ratio_ratio [simp]:
  "performanceThrottlingRatio (update_trailing_sleep_ratio s) = performanceThrottlingRatio s"
  by (simp add: update_trailing_sleep_ratio_def Let_def)

lemma adjust_cutoff_changed:
  "snd (adjust_cutoff s) \<Longrightarrow> framesSinceCutoffEvent (fst (adjust_cutoff s)) = 0"
  by (simp add: adjust_cutoff_def Let_def split: prod.splits if_splits)


lemma adjust_cutoff_early:
  "framesSinceCutoffEvent s < TRAILING_AVERAGE_FRAMES \<Longrightarrow> adjust_cutoff s = (s, False)"
  by (simp add: adjust_cutoff_def Let_def)

lemma throttle_frame_flag:
  "snd (throttle_frame s) = snd (adjust_cutoff (update_trailing_sleep_ratio s))"
  by (simp add: throttle_frame_def split: prod.splits)

lemma throttle_frame_frames_changed:
  "snd (throttle_frame s) \<Longrightarrow> framesSinceCutoffEvent (fst (throttle_frame s)) = 0"
  using adjust_cutoff_changed [of "update_trailing_sleep_ratio s"]
  by (simp add: throttle_frame_def split: prod.splits)

lemma throttle_frame_early:
  "framesSinceCutoffEvent s < TRAILING_AVERAGE_FRAMES \<Longrightarrow>
   \<not> snd (throttle_frame s) \<and>
   framesSinceCutoffEvent (fst (throttle_frame s)) = framesSinceCutoffEvent s + 1 \<and>
   performanceThrottlingRatio (fst (throttle_frame s)) = performanceThrottlingRatio s"
  using adjust_cutoff_early [of "update_trailing_sleep_ratio s"]
  by (simp add: throttle_frame_def)

lemma run_frame_frames [simp]:
  "framesSinceCutoffEvent (run_frame s u) = framesSinceCutoffEvent (fst (throttle_frame s))"
  by (simp add: run_frame_def)

lemma adjust_cutoff_raise:
  "TRAILING_AVERAGE_FRAMES \<le> framesSinceCutoffEvent s \<Longrightarrow>
   fle (trailingSleepRatio s) STRUGGLE_TRIGGER_SLEEP_PERCENTAGE_THRESHOLD \<Longrightarrow>
   snd (adjust_cutoff s) \<and>
   performanceThrottlingRatio (fst (adjust_cutoff s)) =
     fadd (performanceThrottlingRatio s) (fmul (Fin (1/2)) (fsub (Fin 1) (performanceThrottlingRatio s)))"
  by (simp add: adjust_cutoff_def Let_def)




lemma adjust_cutoff_hold:
  "TRAILING_AVERAGE_FRAMES \<le> framesSinceCutoffEvent s \<Longrightarrow>
   \<not> fle (trailingSleepRatio s) STRUGGLE_TRIGGER_SLEEP_PERCENTAGE_THRESHOLD \<Longrightarrow>
   \<not> (fle BACK_OFF_TRIGGER_SLEEP_PERCENTAGE_THRESHOLD (trailingSleepRatio s)
      \<and> fne (performanceThrottlingRatio s) (Fin 0)) \<Longrightarrow>
   adjust_cutoff s = (s, False)"
  by (auto simp add: adjust_cutoff_def Let_def)

lemma throttle_frame_tsr:
  "trailingSleepRatio (fst (throttle_frame s)) = trailingSleepRatio (update_trailing_sleep_ratio s)"
  by (auto simp add: throttle_frame_def adjust_cutoff_def Let_def split: prod.splits)

lemma throttle_frame_ratio:
  "performanceThrottlingRatio (fst (throttle_frame s)) =
   performanceThrottlingRatio (fst (adjust_cutoff (update_trailing_sleep_ratio s)))"
  by (simp add: throttle_frame_def split: prod.splits)

lemma frame_state_0 [simp]: "frame_state s us 0 = s"
  by (simp add: frame_state_def run_frames_def)











lemma slept_whole_frame:
  "fadd (fmul PREVIOUS_FRAMES_RATIO (Fin 1))
        (fdiv (fmul (float_of_int BUFFER_SEND_INTERVAL_USECS) CURRENT_FRAME_RATIO)
              (float_of_int BUFFER_SEND_INTERVAL_USECS)) = Fin 1"
  by code_simp



lemma init_tsr:
  "trailingSleepRatio (fst (throttle_frame scheduler_init)) = Fin 1"
proof -
  have "\<not> BUFFER_SEND_INTERVAL_USECS < 0" by (simp add: BUFFER_SEND_INTERVAL_USECS_def)
  then show ?thesis
    by (simp add: throttle_frame_tsr update_trailing_sleep_ratio_def scheduler_init_def
        slept_whole_frame)
qed

lemma throttle_frame_threshold:
  "minAudibilityThreshold s = threshold_of_ratio (performanceThrottlingRatio s) \<Longrightarrow>
   minAudibilityThreshold (fst (throttle_frame s)) =
     threshold_of_ratio (performanceThrottlingRatio (fst (throttle_frame s)))"
  by (simp add: throttle_frame_def adjust_cutoff_def update_trailing_sleep_ratio_def
      threshold_of_ratio_def Let_def split: prod.splits)

lemma reachable_threshold:
  "reachable s \<Longrightarrow> minAudibilityThreshold s = threshold_of_ratio (performanceThrottlingRatio s)"
proof (induction rule: reachable.induct)
  case reach_init
  show ?case by (simp add: scheduler_init_def threshold_of_ratio_zero)
next
  case (reach_frame s next_usec)
  then show ?case using throttle_frame_threshold [of s] by (simp add: run_frame_def)
qed

text \<open>
  C9. In every reachable state of the scheduler loop the audibility threshold is
  \<open>LOUDNESS_TO_DISTANCE_RATIO / (2 * (1 - performance_throttling_ratio))\<close>, computed in
  binary32 as the code computes it; at startup the ratio is 0 and the threshold is the
  binary32 value of 0.5e-5; every adjustment of the ratio re-establishes the equation.
\<close>

theorem threshold_equation_invariant:
  assumes "reachable s"
  shows "minAudibilityThreshold s = threshold_of_ratio (performanceThrottlingRatio s)
       \<and> performanceThrottlingRatio scheduler_init = Fin 0
       \<and> minAudibilityThreshold scheduler_init = f32_of_real (1 / 200000)"
  using reachable_threshold [OF assms]
  by (simp add: scheduler_init_def startup_threshold_value)

theorem threshold_equation_invariant_witness:
  "reachable (run_frame scheduler_init 0)
   \<and> minAudibilityThreshold (run_frame scheduler_init 0) =
       threshold_of_ratio (performanceThrottlingRatio (run_frame scheduler_init 0))"
proof -
  have r: "reachable (run_frame scheduler_init 0)"
    by (rule reach_frame [OF reach_init])
  show ?thesis
    using r threshold_equation_invariant [OF r] by simp
qed

section \<open>A run of frames that never sleep\<close>

text \<open>A frame that did not sleep: the trailing sleep ratio is multiplied by 0.99 and
  rounded (twice: the product, and the sum with zero).\<close>

lemma no_sleep_tsr:
  "usecToSleep s = 0 \<Longrightarrow> trailingSleepRatio s = Fin t \<Longrightarrow>
   trailingSleepRatio (update_trailing_sleep_ratio s) =
     fadd (f32_of_real (4152361 / 4194304 * t)) (Fin 0)"
  by (simp add: update_trailing_sleep_ratio_def PREVIOUS_FRAMES_RATIO_value
      CURRENT_FRAME_RATIO_value send_interval_float float_of_int_zero f32_of_real_zero)

lemma no_sleep_tsr_low:
  assumes "usecToSleep s = 0" "trailingSleepRatio s = Fin t" "0 \<le> t" "t \<le> 13421773 / 134217728"
  shows "\<exists>t'. trailingSleepRatio (update_trailing_sleep_ratio s) = Fin t'
           \<and> 0 \<le> t' \<and> t' \<le> 13421773 / 134217728"
proof -
  have "\<exists>y. f32_of_real (4152361 / 4194304 * t) = Fin y \<and> 0 \<le> y \<and> y \<le> 13421773 / 134217728"
    by (rule f32_of_real_le [OF _ _ struggle_representable]) (use assms(3,4) in simp_all)
  then obtain y where y: "f32_of_real (4152361 / 4194304 * t) = Fin y" "0 \<le> y"
      "y \<le> 13421773 / 134217728" by blast
  have "\<exists>y'. f32_of_real y = Fin y' \<and> 0 \<le> y' \<and> y' \<le> 13421773 / 134217728"
    by (rule f32_of_real_le [OF y(2,3) struggle_representable]) simp_all
  then obtain y' where y': "f32_of_real y = Fin y'" "0 \<le> y'" "y' \<le> 13421773 / 134217728"
    by blast
  show ?thesis
    using no_sleep_tsr [OF assms(1,2)] y y' by simp
qed

lemma decay_arith:
  fixes y y' t :: real
  assumes "y' \<le> y + y / 2 ^ 24 + 1 / 2 ^ 150"
    "y \<le> 4152361 / 4194304 * t + 4152361 / 4194304 * t / 2 ^ 24 + 1 / 2 ^ 150"
    "13421773 / 134217728 < t"
  shows "y' \<le> 9901 / 10000 * t"
  using assms by simp

lemma no_sleep_tsr_decay:
  assumes "usecToSleep s = 0" "trailingSleepRatio s = Fin t" "13421773 / 134217728 < t" "t \<le> 1"
  shows "\<exists>t'. trailingSleepRatio (update_trailing_sleep_ratio s) = Fin t'
           \<and> 0 \<le> t' \<and> t' \<le> 9901 / 10000 * t"
proof -
  have x: "0 < 4152361 / 4194304 * t" "4152361 / 4194304 * t \<le> 1" using assms(3,4) by simp_all
  obtain y where y: "f32_of_real (4152361 / 4194304 * t) = Fin y" "0 \<le> y" "y \<le> 1"
      "y \<le> 4152361 / 4194304 * t + 4152361 / 4194304 * t / 2 ^ 24 + 1 / 2 ^ 150"
    using f32_of_real_upper [OF x] by blast
  show ?thesis
  proof (cases "y = 0")
    case True
    have "0 \<le> 9901 / 10000 * t" using assms(3) by simp
    then show ?thesis using no_sleep_tsr [OF assms(1,2)] y(1) True by (simp add: f32_of_real_zero)
  next
    case False
    then have "0 < y" using y(2) by simp
    then obtain y' where y': "f32_of_real y = Fin y'" "0 \<le> y'"
        "y' \<le> y + y / 2 ^ 24 + 1 / 2 ^ 150"
      using f32_of_real_upper [OF _ y(3)] by blast
    have "y' \<le> 9901 / 10000 * t"
      by (rule decay_arith [OF y'(3) y(4) assms(3)])
    then show ?thesis using no_sleep_tsr [OF assms(1,2)] y(1) y'(1,2) by simp
  qed
qed

lemma power_square_bound:
  "0 \<le> a \<Longrightarrow> a ^ n \<le> b \<Longrightarrow> b * b \<le> c \<Longrightarrow> (a::real) ^ (2 * n) \<le> c"
proof -
  assume a: "0 \<le> a" "a ^ n \<le> b" "b * b \<le> c"
  have "0 \<le> a ^ n" using a(1) by simp
  then have b: "0 \<le> b" using a(2) by linarith
  have "a ^ (2 * n) = a ^ n * a ^ n" by (simp add: power2_eq_square power_mult mult.commute)
  also have "\<dots> \<le> b * b" using a b by (intro mult_mono) simp_all
  finally show ?thesis using a(3) by simp
qed

lemma decay_256: "(9901 / 10000 :: real) ^ 256 \<le> 13421773 / 134217728"
proof -
  have "(9901 / 10000 :: real) ^ 1 \<le> 9901 / 10000" by simp
  from power_square_bound [OF _ this, of "9804 / 10000"]
  have "(9901 / 10000 :: real) ^ 2 \<le> 9804 / 10000" by simp
  from power_square_bound [OF _ this, of "9612 / 10000"]
  have "(9901 / 10000 :: real) ^ 4 \<le> 9612 / 10000" by simp
  from power_square_bound [OF _ this, of "9240 / 10000"]
  have "(9901 / 10000 :: real) ^ 8 \<le> 9240 / 10000" by simp
  from power_square_bound [OF _ this, of "8538 / 10000"]
  have "(9901 / 10000 :: real) ^ 16 \<le> 8538 / 10000" by simp
  from power_square_bound [OF _ this, of "7290 / 10000"]
  have "(9901 / 10000 :: real) ^ 32 \<le> 7290 / 10000" by simp
  from power_square_bound [OF _ this, of "5315 / 10000"]
  have "(9901 / 10000 :: real) ^ 64 \<le> 5315 / 10000" by simp
  from power_square_bound [OF _ this, of "2825 / 10000"]
  have "(9901 / 10000 :: real) ^ 128 \<le> 2825 / 10000" by simp
  from power_square_bound [OF _ this, of "800 / 10000"]
  have "(9901 / 10000 :: real) ^ 256 \<le> 800 / 10000" by simp
  then show ?thesis by simp
qed

lemma two_powi_neg: "(2::real) powi (- int k) = 1 / 2 ^ k"
  by (simp add: power_int_def field_simps)

lemma f32_of_real_inv_pow2:
  assumes "k \<le> 149"
  shows "f32_of_real (1 / 2 ^ k) = Fin (1 / 2 ^ k)"
proof (rule f32_of_real_exact [where m = 1 and j = "- int k"])
  show "(1::real) / 2 ^ k = of_int 1 * 2 powi (- int k)" by (simp add: two_powi_neg)
  have "(1::real) / 2 ^ k \<le> 1" by simp
  moreover have "(1::real) < 2 ^ 128" by simp
  ultimately show "(1::real) / 2 ^ k < 2 ^ 128" by linarith
qed (use assms in simp_all)

lemma f32_of_real_one_minus_inv_pow2:
  assumes "1 \<le> k" "k \<le> 24"
  shows "f32_of_real (1 - 1 / 2 ^ k) = Fin (1 - 1 / 2 ^ k)"
proof (rule f32_of_real_exact [where m = "2 ^ k - 1" and j = "- int k"])
  have "(1::real) / 2 ^ k \<le> 1 / 2 ^ 1" using assms(1) by (intro divide_left_mono power_increasing) simp_all
  then show "0 < (1::real) - 1 / 2 ^ k" by simp
  show "(1::real) - 1 / 2 ^ k = real_of_int (2 ^ k - 1) * 2 powi (- int k)"
    by (simp add: two_powi_neg field_simps)
  have "(2::int) ^ k \<le> 2 ^ 24" using assms(2) by (intro power_increasing) simp_all
  then show "(2::int) ^ k - 1 < 2 ^ 24" by simp
  show "- 149 \<le> - int k" using assms(2) by simp
  have "(1::real) - 1 / 2 ^ k \<le> 1" by simp
  moreover have "(1::real) < 2 ^ 128" by simp
  ultimately show "(1::real) - 1 / 2 ^ k < 2 ^ 128" by linarith
qed

lemma raise_ratio_step:
  assumes "k < 24"
  shows "raise_ratio (Fin (1 - 1 / 2 ^ k)) = Fin (1 - 1 / 2 ^ Suc k)"
proof -
  have a: "fsub (Fin 1) (Fin (1 - 1 / 2 ^ k)) = Fin (1 / 2 ^ k)"
    using f32_of_real_inv_pow2 [of k] assms by (simp add: fsub_def)
  have b: "fmul (Fin (1 / 2)) (Fin (1 / 2 ^ k)) = Fin (1 / 2 ^ Suc k)"
    using f32_of_real_inv_pow2 [of "Suc k"] assms by simp
  have "(1::real) - 1 / 2 ^ k + 1 / 2 ^ Suc k = 1 - 1 / 2 ^ Suc k" by (simp add: field_simps)
  then have c: "fadd (Fin (1 - 1 / 2 ^ k)) (Fin (1 / 2 ^ Suc k)) = Fin (1 - 1 / 2 ^ Suc k)"
    using f32_of_real_one_minus_inv_pow2 [of "Suc k"] assms by simp
  show ?thesis by (simp only: raise_ratio_def a b c)
qed

lemma round_to_one: "f32_of_real (1 - 1 / 2 ^ 25) = Fin 1"
  by code_simp

lemma raise_ratio_last: "raise_ratio (Fin (1 - 1 / 2 ^ 24)) = Fin 1"
proof -
  have a: "fsub (Fin 1) (Fin (1 - 1 / 2 ^ 24)) = Fin (1 / 2 ^ 24)"
    using f32_of_real_inv_pow2 [of 24] by (simp add: fsub_def)
  have b: "fmul (Fin (1 / 2)) (Fin (1 / 2 ^ 24)) = Fin (1 / 2 ^ 25)"
    using f32_of_real_inv_pow2 [of 25] by simp
  have c: "fadd (Fin (1 - 1 / 2 ^ 24)) (Fin (1 / 2 ^ 25)) = Fin 1"
    using round_to_one by simp
  show ?thesis by (simp only: raise_ratio_def a b c)
qed

lemma threshold_of_ratio_one: "threshold_of_ratio (Fin 1) = PInf"
  by (simp add: threshold_of_ratio_def fsub_def f32_of_real_zero LOUDNESS_value inf_of_sign_def)

lemma strugglesD:
  assumes "struggles s r i"
  obtains t where "usecToSleep s = 0" "framesSinceCutoffEvent s = i"
    "performanceThrottlingRatio s = r" "trailingSleepRatio s = Fin t" "0 \<le> t"
    "t \<le> 13421773 / 134217728"
  using assms by (auto simp add: struggles_def split: f32.splits)

lemma strugglesI:
  "usecToSleep s = 0 \<Longrightarrow> framesSinceCutoffEvent s = i \<Longrightarrow> performanceThrottlingRatio s = r \<Longrightarrow>
   trailingSleepRatio s = Fin t \<Longrightarrow> 0 \<le> t \<Longrightarrow> t \<le> 13421773 / 134217728 \<Longrightarrow> struggles s r i"
  by (simp add: struggles_def)

lemma run_frame_fields [simp]:
  "usecToSleep (run_frame s u) = u"
  "performanceThrottlingRatio (run_frame s u) = performanceThrottlingRatio (fst (throttle_frame s))"
  "trailingSleepRatio (run_frame s u) = trailingSleepRatio (fst (throttle_frame s))"
  "minAudibilityThreshold (run_frame s u) = minAudibilityThreshold (fst (throttle_frame s))"
  by (simp_all add: run_frame_def)

lemma struggles_quiet:
  assumes "struggles s r i" "i < TRAILING_AVERAGE_FRAMES"
  shows "struggles (run_frame s 0) r (i + 1)"
proof -
  obtain t where s: "usecToSleep s = 0" "framesSinceCutoffEvent s = i"
    "performanceThrottlingRatio s = r" "trailingSleepRatio s = Fin t" "0 \<le> t"
    "t \<le> 13421773 / 134217728"
    using assms(1) by (rule strugglesD)
  obtain t' where t': "trailingSleepRatio (update_trailing_sleep_ratio s) = Fin t'" "0 \<le> t'"
    "t' \<le> 13421773 / 134217728"
    using no_sleep_tsr_low [OF s(1,4,5,6)] by blast
  have e: "framesSinceCutoffEvent s < TRAILING_AVERAGE_FRAMES" using assms(2) s(2) by simp
  show ?thesis
  proof (rule strugglesI)
    show "usecToSleep (run_frame s 0) = 0" by simp
    show "framesSinceCutoffEvent (run_frame s 0) = i + 1"
      using throttle_frame_early [OF e] s(2) by simp
    show "performanceThrottlingRatio (run_frame s 0) = r"
      using throttle_frame_early [OF e] s(3) by simp
    show "trailingSleepRatio (run_frame s 0) = Fin t'" by (simp add: throttle_frame_tsr t'(1))
  qed (rule t'(2), rule t'(3))
qed

lemma struggles_raise:
  assumes "trailingSleepRatio (update_trailing_sleep_ratio s) = Fin t'" "0 \<le> t'"
    "t' \<le> 13421773 / 134217728" "TRAILING_AVERAGE_FRAMES \<le> framesSinceCutoffEvent s"
  shows "struggles (run_frame s 0) (raise_ratio (performanceThrottlingRatio s)) 0"
proof -
  let ?u = "update_trailing_sleep_ratio s"
  have "fle (trailingSleepRatio ?u) STRUGGLE_TRIGGER_SLEEP_PERCENTAGE_THRESHOLD"
    using assms(1,3) by (simp add: STRUGGLE_value)
  then have r: "snd (adjust_cutoff ?u)"
    "performanceThrottlingRatio (fst (adjust_cutoff ?u)) = raise_ratio (performanceThrottlingRatio s)"
    using adjust_cutoff_raise [of ?u] assms(4) by (simp_all add: raise_ratio_def)
  show ?thesis
  proof (rule strugglesI)
    show "usecToSleep (run_frame s 0) = 0" by simp
    show "framesSinceCutoffEvent (run_frame s 0) = 0"
      using throttle_frame_frames_changed [of s] r(1) by (simp add: throttle_frame_flag)
    show "performanceThrottlingRatio (run_frame s 0) = raise_ratio (performanceThrottlingRatio s)"
      using r(2) by (simp add: throttle_frame_ratio)
    show "trailingSleepRatio (run_frame s 0) = Fin t'" by (simp add: throttle_frame_tsr assms(1))
  qed (rule assms(2), rule assms(3))
qed

lemma struggles_evaluation:
  assumes "struggles s r TRAILING_AVERAGE_FRAMES"
  shows "struggles (run_frame s 0) (raise_ratio r) 0"
proof -
  obtain t where s: "usecToSleep s = 0" "framesSinceCutoffEvent s = TRAILING_AVERAGE_FRAMES"
    "performanceThrottlingRatio s = r" "trailingSleepRatio s = Fin t" "0 \<le> t"
    "t \<le> 13421773 / 134217728"
    using assms(1) by (rule strugglesD)
  obtain t' where t': "trailingSleepRatio (update_trailing_sleep_ratio s) = Fin t'" "0 \<le> t'"
    "t' \<le> 13421773 / 134217728"
    using no_sleep_tsr_low [OF s(1,4,5,6)] by blast
  show ?thesis using struggles_raise [OF t'] s(2,3) by simp
qed

lemma run_frames_Cons [simp]: "run_frames s (u # us) = run_frames (run_frame s u) us"
  by (simp add: run_frames_def)

lemma run_frames_Nil [simp]: "run_frames s [] = s"
  by (simp add: run_frames_def)

lemma run_frames_append: "run_frames s (us @ vs) = run_frames (run_frames s us) vs"
  by (simp add: run_frames_def)

lemma struggles_cycle_aux:
  "struggles s r i \<Longrightarrow> i + int n = TRAILING_AVERAGE_FRAMES \<Longrightarrow>
   struggles (run_frames s (replicate (Suc n) 0)) (raise_ratio r) 0"
proof (induction n arbitrary: s i)
  case 0
  then show ?case using struggles_evaluation [of s r] by simp
next
  case (Suc n)
  have "struggles (run_frame s 0) r (i + 1)"
    using struggles_quiet [OF Suc.prems(1)] Suc.prems(2) by simp
  from Suc.IH [OF this] Suc.prems(2) show ?case by simp
qed

lemma struggles_cycle:
  "struggles s r 0 \<Longrightarrow> struggles (run_frames s (replicate 101 0)) (raise_ratio r) 0"
  using struggles_cycle_aux [of s r 0 100] by (simp add: TRAILING_AVERAGE_FRAMES_def)

lemma raise_ratio_zero: "raise_ratio (Fin 0) = Fin (1 / 2)"
  using raise_ratio_step [of 0] by simp

lemma idle_hold:
  assumes "usecToSleep s = 0" "TRAILING_AVERAGE_FRAMES \<le> framesSinceCutoffEvent s"
    "performanceThrottlingRatio s = Fin 0"
    "trailingSleepRatio (update_trailing_sleep_ratio s) = Fin t'" "13421773 / 134217728 < t'"
  shows "usecToSleep (run_frame s 0) = 0
       \<and> TRAILING_AVERAGE_FRAMES \<le> framesSinceCutoffEvent (run_frame s 0)
       \<and> performanceThrottlingRatio (run_frame s 0) = Fin 0
       \<and> trailingSleepRatio (run_frame s 0) = Fin t'"
proof -
  let ?u = "update_trailing_sleep_ratio s"
  have "\<not> fle (trailingSleepRatio ?u) STRUGGLE_TRIGGER_SLEEP_PERCENTAGE_THRESHOLD"
    using assms(4,5) by (simp add: STRUGGLE_value)
  moreover have "\<not> fne (performanceThrottlingRatio ?u) (Fin 0)"
    using assms(3) by (simp add: fne_def)
  ultimately have "adjust_cutoff ?u = (?u, False)"
    using adjust_cutoff_hold [of ?u] assms(2) by simp
  then have "fst (throttle_frame s) = ?u\<lparr> framesSinceCutoffEvent := framesSinceCutoffEvent ?u + 1 \<rparr>"
    by (simp add: throttle_frame_def)
  then show ?thesis using assms by (simp add: run_frame_def)
qed

lemma first_raise:
  "usecToSleep s = 0 \<Longrightarrow> TRAILING_AVERAGE_FRAMES \<le> framesSinceCutoffEvent s \<Longrightarrow>
   performanceThrottlingRatio s = Fin 0 \<Longrightarrow> trailingSleepRatio s = Fin t \<Longrightarrow>
   0 \<le> t \<Longrightarrow> t \<le> 1 \<Longrightarrow> t * (9901 / 10000) ^ k \<le> 13421773 / 134217728 \<Longrightarrow>
   \<exists>n. struggles (run_frames s (replicate n 0)) (Fin (1 / 2)) 0"
proof (induction k arbitrary: s t)
  case 0
  then have "t \<le> 13421773 / 134217728" by simp
  then obtain t' where t': "trailingSleepRatio (update_trailing_sleep_ratio s) = Fin t'" "0 \<le> t'"
    "t' \<le> 13421773 / 134217728"
    using no_sleep_tsr_low [OF "0.prems"(1,4,5)] by blast
  have "struggles (run_frames s (replicate 1 0)) (Fin (1 / 2)) 0"
    using struggles_raise [OF t' "0.prems"(2)] "0.prems"(3) by (simp add: raise_ratio_zero)
  then show ?case by blast
next
  case (Suc k)
  show ?case
  proof (cases "t \<le> 13421773 / 134217728")
    case True
    then obtain t' where t': "trailingSleepRatio (update_trailing_sleep_ratio s) = Fin t'" "0 \<le> t'"
      "t' \<le> 13421773 / 134217728"
      using no_sleep_tsr_low [OF Suc.prems(1,4,5)] by blast
    have "struggles (run_frames s (replicate 1 0)) (Fin (1 / 2)) 0"
      using struggles_raise [OF t' Suc.prems(2)] Suc.prems(3) by (simp add: raise_ratio_zero)
    then show ?thesis by blast
  next
    case False
    then have gt: "13421773 / 134217728 < t" by simp
    obtain t' where t': "trailingSleepRatio (update_trailing_sleep_ratio s) = Fin t'" "0 \<le> t'"
      "t' \<le> 9901 / 10000 * t"
      using no_sleep_tsr_decay [OF Suc.prems(1,4) gt Suc.prems(6)] by blast
    show ?thesis
    proof (cases "t' \<le> 13421773 / 134217728")
      case True
      have "struggles (run_frames s (replicate 1 0)) (Fin (1 / 2)) 0"
        using struggles_raise [OF t'(1,2) True Suc.prems(2)] Suc.prems(3)
        by (simp add: raise_ratio_zero)
      then show ?thesis by blast
    next
      case False
      then have gt': "13421773 / 134217728 < t'" by simp
      have h: "usecToSleep (run_frame s 0) = 0"
        "TRAILING_AVERAGE_FRAMES \<le> framesSinceCutoffEvent (run_frame s 0)"
        "performanceThrottlingRatio (run_frame s 0) = Fin 0"
        "trailingSleepRatio (run_frame s 0) = Fin t'"
        using idle_hold [OF Suc.prems(1,2,3) t'(1) gt'] by simp_all
      have le1: "t' \<le> 1" using t'(3) Suc.prems(6) by simp
      have a: "t' * (9901 / 10000) ^ k \<le> (9901 / 10000 * t) * (9901 / 10000) ^ k"
        using t'(3) by (intro mult_right_mono) simp_all
      have b: "(9901 / 10000 * t) * (9901 / 10000) ^ k = t * (9901 / 10000) ^ Suc k" by simp
      have "t' * (9901 / 10000) ^ k \<le> 13421773 / 134217728"
        by (rule order_trans [OF a]) (simp only: b Suc.prems(7))
      from Suc.IH [OF h t'(2) le1 this]
      obtain n where "struggles (run_frames (run_frame s 0) (replicate n 0)) (Fin (1 / 2)) 0"
        by blast
      then have "struggles (run_frames s (replicate (Suc n) 0)) (Fin (1 / 2)) 0" by simp
      then show ?thesis by blast
    qed
  qed
qed

lemma climb:
  "struggles s (Fin (1 / 2)) 0 \<Longrightarrow> k < 24 \<Longrightarrow>
   struggles (run_frames s (replicate (101 * k) 0)) (Fin (1 - 1 / 2 ^ Suc k)) 0"
proof (induction k)
  case 0
  then show ?case by simp
next
  case (Suc k)
  then have "struggles (run_frames s (replicate (101 * k) 0)) (Fin (1 - 1 / 2 ^ Suc k)) 0"
    by simp
  from struggles_cycle [OF this]
  have "struggles (run_frames s (replicate (101 * k) 0 @ replicate 101 0))
          (raise_ratio (Fin (1 - 1 / 2 ^ Suc k))) 0"
    by (simp only: run_frames_append)
  moreover have "replicate (101 * k) (0::int) @ replicate 101 0 = replicate (101 * Suc k) 0"
    by (simp add: replicate_add [symmetric])
  moreover have "raise_ratio (Fin (1 - 1 / 2 ^ Suc k)) = Fin (1 - 1 / 2 ^ Suc (Suc k))"
    using raise_ratio_step [of "Suc k"] Suc.prems(2) by simp
  ultimately show ?case by simp
qed

lemma first_frame:
  "usecToSleep (run_frame scheduler_init 0) = 0
   \<and> TRAILING_AVERAGE_FRAMES \<le> framesSinceCutoffEvent (run_frame scheduler_init 0)
   \<and> performanceThrottlingRatio (run_frame scheduler_init 0) = Fin 0
   \<and> trailingSleepRatio (run_frame scheduler_init 0) = Fin 1"
proof -
  let ?u = "update_trailing_sleep_ratio scheduler_init"
  have t: "trailingSleepRatio ?u = Fin 1" using init_tsr by (simp add: throttle_frame_tsr)
  have "\<not> fle (trailingSleepRatio ?u) STRUGGLE_TRIGGER_SLEEP_PERCENTAGE_THRESHOLD"
    using t by (simp add: STRUGGLE_value)
  moreover have "\<not> fne (performanceThrottlingRatio ?u) (Fin 0)"
    by (simp add: fne_def scheduler_init_def)
  moreover have f: "TRAILING_AVERAGE_FRAMES \<le> framesSinceCutoffEvent ?u"
    by (simp add: scheduler_init_def)
  ultimately have "adjust_cutoff ?u = (?u, False)"
    using adjust_cutoff_hold [of ?u] by simp
  then have "fst (throttle_frame scheduler_init) =
      ?u\<lparr> framesSinceCutoffEvent := framesSinceCutoffEvent ?u + 1 \<rparr>"
    by (simp add: throttle_frame_def)
  then show ?thesis using t f by (simp add: run_frame_def scheduler_init_def)
qed

lemma reachable_run_frames: "reachable s \<Longrightarrow> reachable (run_frames s us)"
  by (induction us arbitrary: s) (simp_all add: reach_frame)





text \<open>
  C10. The claim is that the throttling ratio stays in \<open>[0, 1)\<close>, so that the threshold
  update never divides by zero. In binary32 it does not: the raise step halves the distance
  to 1, which is exact up to \<open>1 - 2^-24\<close>, the largest value below 1; from there the exact
  result \<open>1 - 2^-25\<close> is a tie and rounds to 1. A mixer whose frames never sleep reaches
  that state: some number of such frames after startup the ratio is exactly 1, the update
  has divided by \<open>2 * (1 - 1) = 0\<close> and the audibility threshold is \<open>+infinity\<close>.
\<close>

theorem throttling_ratio_reaches_one:
  "\<exists>n. reachable (run_frames scheduler_init (replicate n 0))
     \<and> performanceThrottlingRatio (run_frames scheduler_init (replicate n 0)) = Fin 1
     \<and> minAudibilityThreshold (run_frames scheduler_init (replicate n 0)) = PInf"
proof -
  let ?s1 = "run_frame scheduler_init 0"
  have "(1::real) * (9901 / 10000) ^ 256 \<le> 13421773 / 134217728"
    using decay_256 by simp
  then obtain n where n: "struggles (run_frames ?s1 (replicate n 0)) (Fin (1 / 2)) 0"
    using first_raise [of ?s1 1 256] first_frame by auto
  have "struggles (run_frames (run_frames ?s1 (replicate n 0)) (replicate (101 * 23) 0))
          (Fin (1 - 1 / 2 ^ 24)) 0"
    using climb [OF n, of 23] by simp
  from struggles_cycle [OF this]
  have "struggles (run_frames (run_frames (run_frames ?s1 (replicate n 0)) (replicate (101 * 23) 0))
          (replicate 101 0)) (Fin 1) 0"
    by (simp only: raise_ratio_last)
  moreover have "replicate (Suc (n + 101 * 23 + 101)) (0::int) =
      0 # (replicate n 0 @ replicate (101 * 23) 0 @ replicate 101 0)"
    by (simp only: replicate_add replicate_Suc append_assoc)
  then have "run_frames (run_frames (run_frames ?s1 (replicate n 0)) (replicate (101 * 23) 0))
          (replicate 101 0) = run_frames scheduler_init (replicate (Suc (n + 101 * 23 + 101)) 0)"
    by (simp only: run_frames_append run_frames_Cons)
  ultimately have r: "performanceThrottlingRatio
      (run_frames scheduler_init (replicate (Suc (n + 101 * 23 + 101)) 0)) = Fin 1"
    by (simp add: struggles_def)
  have re: "reachable (run_frames scheduler_init (replicate (Suc (n + 101 * 23 + 101)) 0))"
    by (rule reachable_run_frames [OF reach_init])
  from reachable_threshold [OF re] r
  have "minAudibilityThreshold (run_frames scheduler_init (replicate (Suc (n + 101 * 23 + 101)) 0)) = PInf"
    by (simp add: threshold_of_ratio_one)
  with r re show ?thesis by blast
qed

section \<open>Binary32 facts for the audibility gate\<close>

lemma f32_of_real_pow2:
  assumes "k \<le> 127"
  shows "f32_of_real (2 ^ k) = Fin (2 ^ k)"
proof (rule f32_of_real_exact [where m = 1 and j = "int k"])
  show "(2::real) ^ k < 2 ^ 128" using assms by (intro power_strict_increasing) simp_all
qed simp_all

lemma f32_of_real_minus:
  "0 < x \<Longrightarrow> f32_of_real x = Fin x \<Longrightarrow> f32_of_real (- x) = Fin (- x)"
  by (auto simp add: f32_of_real_def Let_def split: if_splits)

lemma startup_threshold_exact:
  "minAudibilityThreshold scheduler_init = Fin (2748779 / 549755813888)"
proof -
  have "f32_of_real (2748779 / 549755813888) = Fin (2748779 / 549755813888)"
    by (rule f32_of_real_exact [where m = 2748779 and j = "- 39"])
       (simp_all add: power_int_def field_simps)
  then show ?thesis by (simp add: scheduler_init_def LOUDNESS_value)
qed


lemma reciprocal_of_EPSILON: "f32_of_real (8796093022208 / 8796093) = Fin 1000000"
  by code_simp

lemma loudness_over_EPSILON: "fdiv (Fin 1) (Fin EPSILON_float) = Fin 1000000"
  using reciprocal_of_EPSILON by (simp add: EPSILON_float_def)

lemma fsub_zero: "fsub (Fin 0) (Fin 0) = Fin 0"
  by (simp add: fsub_def f32_of_real_zero)

lemma fmul_zero: "fmul (Fin 0) (Fin 0) = Fin 0"
  by (simp add: f32_of_real_zero)

lemma fadd_zero: "fadd (Fin 0) (Fin 0) = Fin 0"
  by (simp add: f32_of_real_zero)



section \<open>The mixer: the audibility gate, the self source and the attenuation\<close>

lemma spatialize_Skipped_iff:
  "spatialize E t b l = Skipped \<longleftrightarrow>
     address b \<noteq> address l
     \<and> fle (fdiv (Fin (nextOutputTrailingLoudness b)) (distanceBetween E b l)) t"
  by (auto simp add: spatialize_def Let_def split: if_splits option.splits prod.splits)

lemma addBuffer_not_skipped:
  assumes "address b \<noteq> address l" "spatialize E t b l \<noteq> Skipped"
  shows "addBufferToMixForListeningNodeWithBuffer E t b l m \<noteq> Some m"
proof (cases "spatialize E t b l")
  case Skipped
  then show ?thesis using assms(2) by simp
next
  case NotANumber
  then show ?thesis by (simp add: addBufferToMixForListeningNodeWithBuffer_def)
next
  case (Spatial p)
  have "sumMixes m' = sumMixes m + 1"
    if "addBufferToMixForListeningNodeWithBuffer E t b l m = Some m'" for m'
    using that assms(1)
    by (auto simp add: addBufferToMixForListeningNodeWithBuffer_def Spatial
        split: Option.bind_splits)
  then show ?thesis by fastforce
qed

text \<open>
  C2. For a source other than the listener's own buffer: when its trailing loudness over
  its distance from the listener (the length of the relative position, held at \<open>EPSILON\<close>
  from below) is at most the audibility threshold, equality included, it adds nothing:
  the function returns with the mix as it was; when it is not, the function does not.
  The distance, the quotient and the comparison are the code's, in binary32.
\<close>

theorem audibility_gate_skips:
  assumes "address bufferToAdd \<noteq> address listeningNodeBuffer"
  shows "(fle (fdiv (Fin (nextOutputTrailingLoudness bufferToAdd))
                    (distanceBetween EPSILON bufferToAdd listeningNodeBuffer)) threshold
            \<longrightarrow> addBufferToMixForListeningNodeWithBuffer EPSILON threshold bufferToAdd
                  listeningNodeBuffer m = Some m)
       \<and> (\<not> fle (fdiv (Fin (nextOutputTrailingLoudness bufferToAdd))
                      (distanceBetween EPSILON bufferToAdd listeningNodeBuffer)) threshold
            \<longrightarrow> addBufferToMixForListeningNodeWithBuffer EPSILON threshold bufferToAdd
                  listeningNodeBuffer m \<noteq> Some m)"
proof (intro conjI impI)
  assume "fle (fdiv (Fin (nextOutputTrailingLoudness bufferToAdd))
                    (distanceBetween EPSILON bufferToAdd listeningNodeBuffer)) threshold"
  then have "spatialize EPSILON threshold bufferToAdd listeningNodeBuffer = Skipped"
    using assms by (simp add: spatialize_Skipped_iff)
  then show "addBufferToMixForListeningNodeWithBuffer EPSILON threshold bufferToAdd
      listeningNodeBuffer m = Some m"
    by (simp add: addBufferToMixForListeningNodeWithBuffer_def)
next
  assume "\<not> fle (fdiv (Fin (nextOutputTrailingLoudness bufferToAdd))
                    (distanceBetween EPSILON bufferToAdd listeningNodeBuffer)) threshold"
  then have "spatialize EPSILON threshold bufferToAdd listeningNodeBuffer \<noteq> Skipped"
    by (simp add: spatialize_Skipped_iff)
  then show "addBufferToMixForListeningNodeWithBuffer EPSILON threshold bufferToAdd
      listeningNodeBuffer m \<noteq> Some m"
    by (rule addBuffer_not_skipped [OF assms])
qed

lemma distanceBetween_far:
  "distanceBetween EPSILON_float far_source quiet_microphone = Fin 8192"
proof -
  have p: "position far_source = Vec3 8192 0 0" "position quiet_microphone = Vec3 0 0 0"
    by (simp_all add: far_source_def quiet_microphone_def)
  have e: "f32_of_real 8192 = Fin 8192"
    using f32_of_real_pow2 [of 13] by simp
  have e2: "f32_of_real 67108864 = Fin 67108864"
    using f32_of_real_pow2 [of 26] by simp
  have x: "fsub (Fin 8192) (Fin 0) = Fin 8192" using e by (simp add: fsub_def)
  have xx: "fmul (Fin 8192) (Fin 8192) = Fin 67108864" using e2 by simp
  have a: "fadd (Fin 67108864) (Fin 0) = Fin 67108864" using e2 by simp
  have "sqrt 67108864 = 8192" by (rule real_sqrt_unique) simp_all
  then have r: "fsqrt (Fin 67108864) = Fin 8192" using e by (simp add: fsqrt_def)
  have n: "\<not> flt (Fin 8192) (Fin EPSILON_float)" by (simp add: EPSILON_float_def)
  show ?thesis
    by (simp only: distanceBetween_def Let_def p fvec_sub.simps fvec_length.simps
        x xx a r n fsub_zero fmul_zero if_False)
qed

lemma far_quotient:
  "fdiv (Fin (nextOutputTrailingLoudness far_source))
        (distanceBetween EPSILON_float far_source quiet_microphone)
     = minAudibilityThreshold scheduler_init"
proof -
  have "f32_of_real (2748779 / 549755813888) = Fin (2748779 / 549755813888)"
    by (rule f32_of_real_exact [where m = 2748779 and j = "- 39"])
       (simp_all add: power_int_def field_simps)
  moreover have "nextOutputTrailingLoudness far_source = 2748779 / 67108864"
    by (simp add: far_source_def)
  ultimately show ?thesis
    by (simp only: distanceBetween_far startup_threshold_exact) simp
qed

lemma distanceBetween_close:
  "distanceBetween EPSILON_float quiet_microphone close_listener = Fin EPSILON_float"
proof -
  define h q :: real where "h = 1 / 2 ^ 21" and "q = 1 / 2 ^ 42"
  have p: "position quiet_microphone = Vec3 0 0 0" "position close_listener = Vec3 0 0 h"
    by (simp_all add: close_listener_def quiet_microphone_def h_def)
  have z: "f32_of_real h = Fin h"
    unfolding h_def by (rule f32_of_real_inv_pow2) simp
  have zq: "f32_of_real q = Fin q"
    unfolding q_def by (rule f32_of_real_inv_pow2) simp
  have hq: "0 < h" "0 \<le> q" "- h * - h = q" "0 + q = q" "0 + - h = - h"
    by (simp_all add: h_def q_def)
  have nz: "fsub (Fin 0) (Fin h) = Fin (- h)"
    using f32_of_real_minus [OF hq(1) z] by (simp add: fsub_def)
  have zz: "fmul (Fin (- h)) (Fin (- h)) = Fin q"
    by (simp only: fmul.simps hq(3) zq)
  have a: "fadd (Fin 0) (Fin q) = Fin q"
    by (simp only: fadd.simps hq(4) zq)
  have "sqrt q = h"
    by (rule real_sqrt_unique) (simp_all add: h_def q_def power2_eq_square)
  then have r: "fsqrt (Fin q) = Fin h" using z hq(2) by (simp add: fsqrt_def)
  have n: "flt (Fin h) (Fin EPSILON_float)" by (simp add: EPSILON_float_def h_def)
  show ?thesis
    by (simp only: distanceBetween_def Let_def p fvec_sub.simps fvec_length.simps
        nz zz a r n fsub_zero fmul_zero fadd_zero if_True)
qed


lemma close_gate:
  "\<not> fle (fdiv (Fin (nextOutputTrailingLoudness quiet_microphone))
              (distanceBetween EPSILON_float quiet_microphone close_listener))
          (minAudibilityThreshold scheduler_init)"
proof -
  have "nextOutputTrailingLoudness quiet_microphone = 1" by (simp add: quiet_microphone_def)
  then show ?thesis
    by (simp only: distanceBetween_close loudness_over_EPSILON startup_threshold_exact) simp
qed

theorem audibility_gate_skips_witness:
  "address far_source \<noteq> address quiet_microphone
   \<and> fdiv (Fin (nextOutputTrailingLoudness far_source))
          (distanceBetween EPSILON_float far_source quiet_microphone)
       = minAudibilityThreshold scheduler_init
   \<and> fle (fdiv (Fin (nextOutputTrailingLoudness far_source))
               (distanceBetween EPSILON_float far_source quiet_microphone))
          (minAudibilityThreshold scheduler_init)
   \<and> addBufferToMixForListeningNodeWithBuffer EPSILON_float (minAudibilityThreshold scheduler_init)
        far_source quiet_microphone empty_mix = Some empty_mix
   \<and> address quiet_microphone \<noteq> address close_listener
   \<and> \<not> fle (fdiv (Fin (nextOutputTrailingLoudness quiet_microphone))
                 (distanceBetween EPSILON_float quiet_microphone close_listener))
            (minAudibilityThreshold scheduler_init)
   \<and> addBufferToMixForListeningNodeWithBuffer EPSILON_float (minAudibilityThreshold scheduler_init)
        quiet_microphone close_listener empty_mix \<noteq> Some empty_mix"
proof -
  have a: "address far_source \<noteq> address quiet_microphone"
    by (simp add: far_source_def quiet_microphone_def)
  have b: "fle (fdiv (Fin (nextOutputTrailingLoudness far_source))
               (distanceBetween EPSILON_float far_source quiet_microphone))
          (minAudibilityThreshold scheduler_init)"
    by (simp only: far_quotient startup_threshold_exact) simp
  have c: "address quiet_microphone \<noteq> address close_listener"
    by (simp add: close_listener_def quiet_microphone_def)
  have r1: "addBufferToMixForListeningNodeWithBuffer EPSILON_float
        (minAudibilityThreshold scheduler_init) far_source quiet_microphone empty_mix
      = Some empty_mix"
    using audibility_gate_skips [OF a, of EPSILON_float "minAudibilityThreshold scheduler_init"
        empty_mix] b by blast
  have r2: "addBufferToMixForListeningNodeWithBuffer EPSILON_float
        (minAudibilityThreshold scheduler_init) quiet_microphone close_listener empty_mix
      \<noteq> Some empty_mix"
    using audibility_gate_skips [OF c, of EPSILON_float "minAudibilityThreshold scheduler_init"
        empty_mix] close_gate by blast
  show ?thesis
    by (intro conjI) (rule a far_quotient b r1 c close_gate r2)+
qed

lemma distanceBetween_listener_samples:
  "distanceBetween E b (l\<lparr> buffer := xs \<rparr>) = distanceBetween E b l"
  by (simp add: distanceBetween_def)

lemma angleOfDelivery_listener_samples:
  "angleOfDelivery b (l\<lparr> buffer := xs \<rparr>) = angleOfDelivery b l"
  by (simp add: angleOfDelivery_def cong: option.case_cong)

lemma bearingToSource_listener_samples:
  "bearingToSource b (l\<lparr> buffer := xs \<rparr>) = bearingToSource b l"
  by (simp add: bearingToSource_def cong: option.case_cong)

lemma spatialize_listener_samples:
  "spatialize E t b (l\<lparr> buffer := xs \<rparr>) = spatialize E t b l"
  by (simp add: spatialize_def distanceBetween_listener_samples angleOfDelivery_listener_samples
      bearingToSource_listener_samples cong: option.case_cong if_cong)

lemma addBuffer_listener_samples:
  "addBufferToMixForListeningNodeWithBuffer E t b (l\<lparr> buffer := xs \<rparr>) m =
   addBufferToMixForListeningNodeWithBuffer E t b l m"
  by (simp add: addBufferToMixForListeningNodeWithBuffer_def spatialize_listener_samples)

lemma mix_ring_buffers_self:
  assumes "list_all2 differ_in_unlooped_samples bs bs'" "uuid other = uuid listener"
    "uuid other' = uuid listener'" "uuid listener' = uuid listener"
  shows "mix_ring_buffers E t listener' (l\<lparr> buffer := xs \<rparr>) other' bs' m =
         mix_ring_buffers E t listener l other bs m"
  using assms
proof (induction bs bs' arbitrary: m rule: list_all2_induct)
  case Nil
  then show ?case by simp
next
  case (Cons b bs b' bs')
  show ?case
  proof (cases "shouldLoopbackForNode b")
    case True
    then have "b' = b" using Cons.hyps(1) by (simp add: differ_in_unlooped_samples_def)
    then show ?thesis
      using Cons.IH Cons.prems by (simp add: addBuffer_listener_samples split: option.splits)
  next
    case False
    then have "b' = b\<lparr> buffer := buffer b' \<rparr>"
      using Cons.hyps(1) by (simp add: differ_in_unlooped_samples_def)
    then have "\<not> shouldLoopbackForNode b'" using False
      by (metis ring_buffer.select_convs(13) ring_buffer.surjective ring_buffer.update_convs(10))
    then show ?thesis using False Cons.IH Cons.prems by simp
  qed
qed

lemma mix_ring_buffers_other:
  "uuid listener' = uuid listener \<Longrightarrow>
   mix_ring_buffers E t listener' (l\<lparr> buffer := xs \<rparr>) other bs m =
   mix_ring_buffers E t listener l other bs m"
  by (induction bs arbitrary: m) (auto simp add: addBuffer_listener_samples split: option.splits)

lemma mix_nodes_self_varied:
  assumes "list_all2 (self_varied (uuid listener)) nodes nodes'" "uuid listener' = uuid listener"
  shows "mix_nodes E t listener' (l\<lparr> buffer := xs \<rparr>) nodes' m = mix_nodes E t listener l nodes m"
  using assms
proof (induction nodes nodes' arbitrary: m rule: list_all2_induct)
  case Nil
  then show ?case by simp
next
  case (Cons n ns n' ns')
  show ?case
  proof (cases "uuid n = uuid listener")
    case True
    then have u: "uuid n' = uuid listener"
      and r: "rel_option (list_all2 differ_in_unlooped_samples) (linkedData n) (linkedData n')"
      using Cons.hyps(1) by (simp_all add: self_varied_def)
    show ?thesis
    proof (cases "linkedData n")
      case None
      then have "linkedData n' = None" using r by (cases "linkedData n'") simp_all
      then show ?thesis using None Cons.IH Cons.prems by simp
    next
      case (Some bs)
      then obtain bs' where bs': "linkedData n' = Some bs'"
        "list_all2 differ_in_unlooped_samples bs bs'"
        using r by (cases "linkedData n'") simp_all
      have "mix_ring_buffers E t listener' (l\<lparr> buffer := xs \<rparr>) n' bs' m =
            mix_ring_buffers E t listener l n bs m"
        using mix_ring_buffers_self [OF bs'(2) True] u Cons.prems by simp
      then show ?thesis using Some bs'(1) Cons.IH Cons.prems by (simp split: option.splits)
    qed
  next
    case False
    then have "n' = n" using Cons.hyps(1) by (simp add: self_varied_def)
    moreover have "\<And>bs m. mix_ring_buffers E t listener' (l\<lparr> buffer := xs \<rparr>) n bs m =
        mix_ring_buffers E t listener l n bs m"
      by (rule mix_ring_buffers_other [OF Cons.prems])
    ultimately show ?thesis
      using Cons.IH Cons.prems by (simp split: option.splits)
  qed
qed

lemma getAvatarAudioRingBuffer_varied:
  assumes "list_all2 differ_in_unlooped_samples bs bs'"
  shows "rel_option (\<lambda>l l'. l' = l\<lparr> buffer := buffer l' \<rparr>)
           (getAvatarAudioRingBuffer bs) (getAvatarAudioRingBuffer bs')"
  using assms
proof (induction bs bs' rule: list_all2_induct)
  case Nil
  then show ?case by (simp add: getAvatarAudioRingBuffer_def)
next
  case (Cons b bs b' bs')
  have e: "b' = b\<lparr> buffer := buffer b' \<rparr>"
    using Cons.hyps(1) by (auto simp add: differ_in_unlooped_samples_def split: if_splits)
  then have "bufferType b' = bufferType b"
    by (metis ring_buffer.select_convs(2) ring_buffer.surjective ring_buffer.update_convs(10))
  then show ?case using Cons.IH e by (simp add: getAvatarAudioRingBuffer_def)
qed

text \<open>
  C7. The mix prepared for a listener does not depend on the samples of those of its own
  ring buffers whose \<open>shouldLoopbackForNode\<close> is false: two runs on node lists that differ
  only in such samples give the same result. A source is mixed into its own listener's
  output only when \<open>shouldLoopbackForNode\<close> is true.
\<close>

theorem self_source_noninterference:
  assumes "list_all2 (self_varied (uuid listener)) nodeList nodeList'"
    and "self_varied (uuid listener) listener listener'"
  shows "prepareMixForListeningNode EPSILON threshold nodeList' listener' m =
         prepareMixForListeningNode EPSILON threshold nodeList listener m"
proof -
  have u: "uuid listener' = uuid listener"
    and r: "rel_option (list_all2 differ_in_unlooped_samples) (linkedData listener) (linkedData listener')"
    using assms(2) by (simp_all add: self_varied_def)
  show ?thesis
  proof (cases "linkedData listener")
    case None
    then have "linkedData listener' = None" using r by (cases "linkedData listener'") simp_all
    then show ?thesis using None by (simp add: prepareMixForListeningNode_def)
  next
    case (Some bs)
    then obtain bs' where bs': "linkedData listener' = Some bs'"
      "list_all2 differ_in_unlooped_samples bs bs'"
      using r by (cases "linkedData listener'") simp_all
    have g: "rel_option (\<lambda>l l'. l' = l\<lparr> buffer := buffer l' \<rparr>)
           (getAvatarAudioRingBuffer bs) (getAvatarAudioRingBuffer bs')"
      by (rule getAvatarAudioRingBuffer_varied [OF bs'(2)])
    show ?thesis
    proof (cases "getAvatarAudioRingBuffer bs")
      case None
      then have "getAvatarAudioRingBuffer bs' = None"
        using g by (cases "getAvatarAudioRingBuffer bs'") simp_all
      then show ?thesis using None Some bs'(1) by (simp add: prepareMixForListeningNode_def)
    next
      case (Some l)
      then obtain l' where l': "getAvatarAudioRingBuffer bs' = Some l'"
        "l' = l\<lparr> buffer := buffer l' \<rparr>"
        using g by (cases "getAvatarAudioRingBuffer bs'") simp_all
      have "\<And>m. mix_nodes EPSILON threshold listener' l' nodeList' m =
            mix_nodes EPSILON threshold listener l nodeList m"
        using mix_nodes_self_varied [OF assms(1) u, where E = EPSILON and t = threshold
            and l = l and xs = "buffer l'"] l'(2)
        by simp
      then show ?thesis
        using Some \<open>linkedData listener = Some bs\<close> bs'(1) l'(1)
        by (simp add: prepareMixForListeningNode_def split: Option.bind_splits)
    qed
  qed
qed

lemma powr_ge_one:
  fixes a e :: real
  assumes "0 < a" "a < 1" "e \<le> 0"
  shows "1 \<le> a powr e"
proof -
  have "ln a < 0" using assms(1,2) by simp
  then have "0 \<le> e * ln a" using assms(3) by (simp add: mult_nonpos_nonpos)
  then show ?thesis using assms(1) by (simp add: powr_def)
qed

lemma distanceCoefficient_near:
  assumes "0 < d2" "d2 \<le> 1"
  shows "distanceCoefficient d2 = 1"
proof -
  define L where "L = ln (25 / 10 :: real)"
  have l: "0 < L" by (simp add: L_def)
  have "ln d2 \<le> 0" using assms by simp
  then have "5 / 10 * ln d2 \<le> 0" by simp
  then have "5 / 10 * ln d2 / L \<le> 0" using l by (simp only: divide_le_0_iff) simp
  moreover have "L / L = 1" using l by simp
  ultimately have e: "L / L + 5 / 10 * ln d2 / L - 1 \<le> 0" by simp
  have "1 \<le> (3 / 10 :: real) powr (L / L + 5 / 10 * ln d2 / L - 1)"
    by (rule powr_ge_one [OF _ _ e]) simp_all
  then show ?thesis
    unfolding distanceCoefficient_def Let_def L_def by (simp only: min_def) simp
qed

lemma offAxisCoefficient_formula:
  "offAxisCoefficient angle = 2 / 10 + ((1 - 2 / 10) / 2) * (angle / (pi / 2))"
  by (simp add: offAxisCoefficient_def MAX_OFF_AXIS_ATTENUATION_def
      OFF_AXIS_ATTENUATION_FORMULA_STEP_def PI_OVER_TWO_def)

lemma offAxisCoefficient_values:
  "offAxisCoefficient 0 = 2 / 10" "offAxisCoefficient (pi / 2) = 6 / 10" "offAxisCoefficient pi = 1"
  by (simp_all add: offAxisCoefficient_formula)

lemma spatialize_point_source:
  assumes "spatialize E t b l = Spatial p" "address b \<noteq> address l"
    "\<not> in_unattenuated_zone b l" "point_source b"
  shows "\<exists>angle. angleOfDelivery b l = Some angle
           \<and> attenuationCoefficient p =
               injector_ratio b * offAxisCoefficient angle
                 * distanceCoefficient (distanceSquareToSource b l)"
proof -
  have r: "(if bufferType b = Injector then radius b else 0) = 0"
    using assms(4) by (cases "bufferType b") (simp_all add: point_source_def)
  show ?thesis
    using assms(1,2,3) r
    by (auto simp add: spatialize_def in_unattenuated_zone_def injector_ratio_def
        distanceSquareToSource_def Let_def
        split: if_splits option.splits prod.splits)
qed

lemma glm_length_z: "glm_length (Vec3 0 0 z) = \<bar>z\<bar>"
  by (simp add: glm_length_def)

lemma glm_normalize_z:
  "glm_normalize (Vec3 0 0 z) = (if z = 0 then None else Some (Vec3 0 0 (sgn z)))"
  by (simp add: glm_normalize_def glm_length_z sgn_real_def)

lemma glm_inverse_identity: "glm_inverse (Quat 1 0 0 0) = Some (Quat 1 0 0 0)"
  by simp

lemma quat_rotate_identity: "quat_rotate (Quat 1 0 0 0) v = v"
  by (cases v) simp

lemma angleOfDelivery_behind:
  "angleOfDelivery quiet_microphone close_listener = Some 0"
  by (simp add: angleOfDelivery_def quiet_microphone_def close_listener_def
      quat_rotate_identity glm_normalize_z glm_angle_def)

lemma angleOfDelivery_in_front:
  "angleOfDelivery quiet_microphone listener_in_front = Some pi"
  by (simp add: angleOfDelivery_def quiet_microphone_def listener_in_front_def
      quat_rotate_identity glm_normalize_z glm_angle_def)

lemma bearingToSource_close:
  "bearingToSource quiet_microphone close_listener = Some 0"
  by (simp add: bearingToSource_def quiet_microphone_def close_listener_def
      quat_rotate_identity glm_normalize_z glm_angle_def glm_orientedAngle_def)

lemma distanceCoefficient_close:
  "distanceCoefficient (1 / 4398046511104) = 1"
  by (rule distanceCoefficient_near) simp_all

lemma spatialize_close:
  "spatialize EPSILON_float (minAudibilityThreshold scheduler_init) quiet_microphone close_listener =
     Spatial \<lparr> shouldAttenuate = True, bearingRelativeAngleToSource = 0,
               attenuationCoefficient = 1 / 5, numSamplesDelay = 0,
               weakChannelAmplitudeRatio = 1 \<rparr>"
proof -
  have a: "address quiet_microphone \<noteq> address close_listener"
    "listenerUnattenuatedZone quiet_microphone = None"
    "bufferType quiet_microphone = Microphone"
    "vec_sub (position quiet_microphone) (position close_listener) = Vec3 0 0 (- (1 / 2 ^ 21))"
    by (simp_all add: quiet_microphone_def close_listener_def)
  show ?thesis
    by (simp add: spatialize_def a close_gate angleOfDelivery_behind
        bearingToSource_close distanceCoefficient_close offAxisCoefficient_values
        truncate_real_def)
qed




text \<open>
  C4. For a point source (a microphone, or an injector of radius 0) that is not the
  listener's own buffer, is not gated out and has the listener outside its unattenuated
  zone, the attenuation applied is the injector's ratio times the off-axis coefficient
  times the distance coefficient, and the off-axis coefficient is
  \<open>MAX_OFF_AXIS + ((1 - MAX_OFF_AXIS) / 2) * (angle / (pi / 2))\<close> with \<open>MAX_OFF_AXIS = 0.2\<close>,
  where the angle is between the forward axis \<open>(0, 0, -1)\<close> and the position of the source
  relative to the listener, taken in the source's frame. The coefficient is 0.2 at angle
  0, 0.6 at \<open>pi / 2\<close> and 1 at \<open>pi\<close>.
\<close>

theorem off_axis_attenuation:
  assumes "spatialize E t b l = Spatial p" and "address b \<noteq> address l"
    and "\<not> in_unattenuated_zone b l" and "point_source b"
  shows "(\<exists>angle. angleOfDelivery b l = Some angle
           \<and> attenuationCoefficient p =
               injector_ratio b * offAxisCoefficient angle
                 * distanceCoefficient (distanceSquareToSource b l))
       \<and> (\<forall>angle. offAxisCoefficient angle = 2 / 10 + ((1 - 2 / 10) / 2) * (angle / (pi / 2)))
       \<and> offAxisCoefficient 0 = 2 / 10
       \<and> offAxisCoefficient (pi / 2) = 6 / 10
       \<and> offAxisCoefficient pi = 1"
  using spatialize_point_source [OF assms] offAxisCoefficient_formula offAxisCoefficient_values
  by blast

theorem off_axis_attenuation_witness:
  "spatialize EPSILON_float (minAudibilityThreshold scheduler_init) quiet_microphone close_listener =
     Spatial \<lparr> shouldAttenuate = True, bearingRelativeAngleToSource = 0,
               attenuationCoefficient = 1 / 5, numSamplesDelay = 0,
               weakChannelAmplitudeRatio = 1 \<rparr>
   \<and> address quiet_microphone \<noteq> address close_listener
   \<and> \<not> in_unattenuated_zone quiet_microphone close_listener
   \<and> point_source quiet_microphone
   \<and> angleOfDelivery quiet_microphone close_listener = Some 0
   \<and> (1 / 5 :: real) =
       injector_ratio quiet_microphone * offAxisCoefficient 0
         * distanceCoefficient (distanceSquareToSource quiet_microphone close_listener)"
proof -
  have a: "address quiet_microphone \<noteq> address close_listener"
    by (simp add: quiet_microphone_def close_listener_def)
  have b: "\<not> in_unattenuated_zone quiet_microphone close_listener"
    by (simp add: in_unattenuated_zone_def quiet_microphone_def)
  have c: "point_source quiet_microphone"
    by (simp add: point_source_def quiet_microphone_def)
  obtain angle where g: "angleOfDelivery quiet_microphone close_listener = Some angle"
    "attenuationCoefficient \<lparr> shouldAttenuate = True, bearingRelativeAngleToSource = 0,
               attenuationCoefficient = 1 / 5, numSamplesDelay = 0,
               weakChannelAmplitudeRatio = 1 \<rparr> =
       injector_ratio quiet_microphone * offAxisCoefficient angle
         * distanceCoefficient (distanceSquareToSource quiet_microphone close_listener)"
    using off_axis_attenuation [OF spatialize_close a b c] by blast
  have "angle = 0" using g(1) by (simp add: angleOfDelivery_behind)
  then have d: "(1 / 5 :: real) =
       injector_ratio quiet_microphone * offAxisCoefficient 0
         * distanceCoefficient (distanceSquareToSource quiet_microphone close_listener)"
    using g(2) by simp
  show ?thesis
    by (intro conjI) (rule spatialize_close a b c angleOfDelivery_behind d)+
qed

theorem off_axis_values_counterexample:
  "offAxisCoefficient 0 \<noteq> 6 / 10 \<and> offAxisCoefficient (pi / 2) \<noteq> 1"
  by (simp add: offAxisCoefficient_values)







theorem self_source_noninterference_witness:
  "list_all2 (self_varied (uuid muted_listener))
      [muted_listener, far_node] [muted_listener_other_samples, far_node]
   \<and> self_varied (uuid muted_listener) muted_listener muted_listener_other_samples
   \<and> \<not> shouldLoopbackForNode quiet_microphone
   \<and> prepareMixForListeningNode EPSILON_float (minAudibilityThreshold scheduler_init)
         [muted_listener_other_samples, far_node] muted_listener_other_samples empty_mix =
       prepareMixForListeningNode EPSILON_float (minAudibilityThreshold scheduler_init)
         [muted_listener, far_node] muted_listener empty_mix"
proof -
  have a: "self_varied (uuid muted_listener) muted_listener muted_listener_other_samples"
    by (simp add: self_varied_def muted_listener_def muted_listener_other_samples_def
        differ_in_unlooped_samples_def quiet_microphone_def)
  have b: "self_varied (uuid muted_listener) far_node far_node"
    by (simp add: self_varied_def muted_listener_def far_node_def)
  have c: "list_all2 (self_varied (uuid muted_listener))
      [muted_listener, far_node] [muted_listener_other_samples, far_node]"
    using a b by simp
  have d: "\<not> shouldLoopbackForNode quiet_microphone" by (simp add: quiet_microphone_def)
  show ?thesis
    using self_source_noninterference [OF c a] by (intro conjI) (rule a c d | assumption)+
qed

section \<open>The mix of a stereo or unattenuated source\<close>




lemma to_int16_Some:
  "to_int16 x = Some v \<longleftrightarrow> v = truncate_real x \<and> - 32768 \<le> v \<and> v \<le> 32767"
  by (auto simp add: to_int16_def Let_def)








lemma saturate16_in_range: "sample_in_range (saturate16 v)"
  by (simp add: sample_in_range_def saturate16_def MIN_SAMPLE_VALUE_def MAX_SAMPLE_VALUE_def)

















end
